theory Spec2Isabelle
  imports Complex_Main "HOL-Library.Word"
begin

section \<open>Data model of the renderer (src/graphics/renderer.cpp)\<close>

text \<open>
  Objects the renderer reaches through C++ references or pointers are identified by their
  address. A nullable pointer is an \<open>addr option\<close> (\<open>None\<close> is \<open>NULL\<close>); a C++
  reference is a plain \<open>addr\<close>. \<open>GLuint\<close> and \<open>uint32_t\<close> are 32-bit words. \<open>GLint\<close>
  locations are only compared with 0 and handed to the driver, so they are \<open>int\<close>.
  The type variable \<open>'f\<close> stands for the C type \<open>float\<close>; the operations modelled
  here only store and forward such values.
\<close>

type_synonym addr = nat
type_synonym GLuint = "32 word"
type_synonym GLint = int
type_synonym uint32_t = "32 word"

record 'f Vec3 =
  vec3_x :: 'f
  vec3_y :: 'f
  vec3_z :: 'f

record 'f Vec4 =
  vec4_x :: 'f
  vec4_y :: 'f
  vec4_z :: 'f
  vec4_w :: 'f

record 'f Matrix =
  m11 :: 'f  m12 :: 'f  m13 :: 'f  m14 :: 'f
  m21 :: 'f  m22 :: 'f  m23 :: 'f  m24 :: 'f
  m31 :: 'f  m32 :: 'f  m33 :: 'f  m34 :: 'f
  m41 :: 'f  m42 :: 'f  m43 :: 'f  m44 :: 'f

text \<open>
  The enumerators of \<open>Shader::FixedCachedUniforms\<close> that this file names, and the ones
  it does not name.
\<close>

datatype FixedCachedUniforms =
  WORLD_MATRIX | VIEW_MATRIX | PROJECTION_MATRIX | OTHER_FIXED_UNIFORM nat

text \<open>
  Modelled from the spec: the shader (graphics/shader.h is not part of this file). A shader
  is a family of compiled programs; each (combination, pass) pair selects one program, and
  the selected program answers \<open>getProgramId\<close>, \<open>getUniformLocation\<close> and
  \<open>getFixedCachedUniformLocation\<close>.
\<close>

record Program =
  program_id :: GLuint
  uniform_location :: "string \<Rightarrow> uint32_t \<Rightarrow> GLint"
  fixed_location :: "FixedCachedUniforms \<Rightarrow> GLint"

record Shader =
  current_combination :: Program
  combinations :: "uint32_t \<Rightarrow> uint32_t \<Rightarrow> Program"

definition getProgramId :: "Shader \<Rightarrow> GLuint" where
  "getProgramId sh = program_id (current_combination sh)"

definition getUniformLocation :: "Shader \<Rightarrow> string \<Rightarrow> uint32_t \<Rightarrow> GLint" where
  "getUniformLocation sh name name_hash = uniform_location (current_combination sh) name name_hash"

definition getFixedCachedUniformLocation :: "Shader \<Rightarrow> FixedCachedUniforms \<Rightarrow> GLint" where
  "getFixedCachedUniformLocation sh name = fixed_location (current_combination sh) name"

definition setCurrentCombination :: "Shader \<Rightarrow> uint32_t \<Rightarrow> uint32_t \<Rightarrow> Shader" where
  "setCurrentCombination sh combination pass_hash =
     sh\<lparr>current_combination := combinations sh combination pass_hash\<rparr>"

text \<open>
  Modelled from the spec: material, mesh, geometry and model (graphics/material.h,
  graphics/geometry.h and graphics/model.h are not part of this file), as the values
  their getters return. A material associates a shader (and the shader combination it is
  applied with); a mesh is a sub-range of a model's geometry with a material, an index
  offset and count and an attribute-array offset; a geometry is a vertex/index buffer
  pair; a model has a readiness flag, its meshes in declaration order and one geometry.
\<close>

record Material =
  material_shader :: addr
  material_shader_combination :: uint32_t

record Mesh =
  mesh_material :: addr
  mesh_attribute_array_offset :: int
  mesh_indices_offset :: int
  mesh_index_count :: int

record Geometry =
  geometry_vertex_buffer :: GLuint
  geometry_index_buffer :: GLuint

record Model =
  model_is_ready :: bool
  model_meshes :: "addr list"
  model_geometry :: addr

subsection \<open>The driver and the calls made on collaborators\<close>

datatype buffer_target = GL_ARRAY_BUFFER | GL_ELEMENT_ARRAY_BUFFER

datatype gl_capability =
  GL_DEPTH_TEST | GL_BLEND | GL_MULTISAMPLE | GL_SAMPLE_ALPHA_TO_COVERAGE

text \<open>
  Every call the renderer makes on the driver or on a collaborator object, with its
  arguments. \<open>GlActiveTexture i\<close> is \<open>glActiveTexture(GL_TEXTURE0 + i)\<close>;
  \<open>GlBindTexture2D t\<close> is \<open>glBindTexture(GL_TEXTURE_2D, t)\<close>; \<open>GlDrawElements n off\<close> is
  \<open>glDrawElements(GL_TRIANGLES, n, GL_UNSIGNED_INT, off * sizeof(GLint))\<close>.
\<close>

datatype 'f call =
    GlUseProgram GLuint
  | GlUniform1i GLint int
  | GlUniform1f GLint 'f
  | GlUniform3f GLint 'f 'f 'f
  | GlUniform4f GLint 'f 'f 'f 'f
  | GlUniformMatrix4fv GLint int bool "'f Matrix list"
  | GlBindBuffer buffer_target GLuint
  | GlActiveTexture nat
  | GlBindTexture2D GLuint
  | GlEnable gl_capability
  | GlDisable gl_capability
  | GlDrawElements int int
  | Shader_setCurrentCombination addr uint32_t uint32_t
  | Material_apply addr
  | Geometry_bindBuffers addr
  | VertexDef_begin addr addr int
  | VertexDef_end addr addr
  | Device_beginFrame addr
  | Device_endFrame addr
  | Pipeline_render addr

text \<open>The part of the driver's context state that the renderer's calls set.\<close>

record gl_state =
  gl_current_program :: GLuint
  gl_array_buffer :: GLuint
  gl_element_array_buffer :: GLuint
  gl_active_texture :: nat
  gl_texture_2d :: "nat \<Rightarrow> GLuint"
  gl_enabled :: "gl_capability \<Rightarrow> bool"

fun gl_exec :: "'f call \<Rightarrow> gl_state \<Rightarrow> gl_state" where
  "gl_exec (GlUseProgram p) g = g\<lparr>gl_current_program := p\<rparr>"
| "gl_exec (GlBindBuffer GL_ARRAY_BUFFER b) g = g\<lparr>gl_array_buffer := b\<rparr>"
| "gl_exec (GlBindBuffer GL_ELEMENT_ARRAY_BUFFER b) g = g\<lparr>gl_element_array_buffer := b\<rparr>"
| "gl_exec (GlActiveTexture i) g = g\<lparr>gl_active_texture := i\<rparr>"
| "gl_exec (GlBindTexture2D t) g =
     g\<lparr>gl_texture_2d := (gl_texture_2d g)(gl_active_texture g := t)\<rparr>"
| "gl_exec (GlEnable c) g = g\<lparr>gl_enabled := (gl_enabled g)(c := True)\<rparr>"
| "gl_exec (GlDisable c) g = g\<lparr>gl_enabled := (gl_enabled g)(c := False)\<rparr>"
| "gl_exec _ g = g"

subsection \<open>The renderer and the world it runs in\<close>

text \<open>
  The five overloads of \<open>RendererImpl::setUniform\<close> differ in the value and in the driver
  call that writes it: \<open>int\<close>, \<open>const Vec3&\<close>, \<open>float\<close>, \<open>const Matrix&\<close> and
  \<open>const Matrix*\<close> with a count. The five overloads of the free function
  \<open>setFixedCachedUniform\<close> take \<open>const Vec3&\<close>, \<open>const Vec4&\<close>, \<open>float\<close>,
  \<open>const Matrix&\<close> and \<open>const Matrix*\<close> with a count.
\<close>

datatype 'f uniform_value =
    UInt int
  | UVec3 "'f Vec3"
  | UFloat 'f
  | UMatrix "'f Matrix"
  | UMatrices "'f Matrix list" int

datatype 'f fixed_uniform_value =
    FVec3 "'f Vec3"
  | FVec4 "'f Vec4"
  | FFloat 'f
  | FMatrix "'f Matrix"
  | FMatrices "'f Matrix list" int

text \<open>
  Modelled from the spec: the pipeline of a render device (graphics/pipeline.h and
  graphics/irender_device.h are not part of this file). Its render step is a sequence of
  draw steps that call into the renderer; the frame entry points \<open>renderGame\<close> and
  \<open>render\<close>, which run the pipeline, are not among them.
\<close>

datatype 'f renderer_call =
    Call_setViewMatrix "'f Matrix"
  | Call_setProjectionMatrix "'f Matrix"
  | Call_setRenderDevice addr
  | Call_cleanup
  | Call_setUniform addr string uint32_t "'f uniform_value"
  | Call_setPass uint32_t
  | Call_applyShader addr uint32_t
  | Call_enableAlphaToCoverage bool
  | Call_enableZTest bool
  | Call_renderModel Model "'f Matrix"
  | Call_setEditorWireframe bool
  | Call_getAttributeNameIndex string
  | Call_setFixedCachedUniform addr FixedCachedUniforms "'f fixed_uniform_value"
  | Call_bindGeometry addr addr
  | Call_renderGeometry int int

datatype fault = NullPointerDereference | InvalidPointerDereference

record 'f RendererImpl =
  m_render_device :: "addr option"
  m_is_editor_wireframe :: bool
  m_last_bind_geometry :: "addr option"
  m_last_bind_geometry_mesh :: "addr option"
  m_last_program_id :: GLuint
  m_current_pass_hash :: uint32_t
  m_view_matrix :: "'f Matrix"
  m_projection_matrix :: "'f Matrix"
  m_debug_shader :: "addr option"
  m_attribute_names :: "string list"

text \<open>
  The renderer, the objects it is handed by reference, the driver's state and the list of
  calls made so far (oldest first). Shaders are mutable (\<open>setCurrentCombination\<close>). A
  render device is present at an address only while one is alive there; it is given by
  the calls its pipeline's render step makes.
\<close>

record 'f world =
  renderer :: "'f RendererImpl"
  shader_at :: "addr \<Rightarrow> Shader"
  material_at :: "addr \<Rightarrow> Material"
  mesh_at :: "addr \<Rightarrow> Mesh"
  geometry_at :: "addr \<Rightarrow> Geometry"
  device_at :: "addr \<rightharpoonup> 'f renderer_call list"
  gl :: gl_state
  calls :: "'f call list"

definition driver :: "'f call \<Rightarrow> 'f world \<Rightarrow> 'f world" where
  "driver c w = w\<lparr>gl := gl_exec c (gl w), calls := calls w @ [c]\<rparr>"

definition set_last_program_id :: "GLuint \<Rightarrow> 'f world \<Rightarrow> 'f world" where
  "set_last_program_id p w = w\<lparr>renderer := (renderer w)\<lparr>m_last_program_id := p\<rparr>\<rparr>"

section \<open>Uniform writes\<close>

text \<open>
  The block every \<open>setUniform\<close> and \<open>setFixedCachedUniform\<close> overload repeats:
  \<^verbatim>\<open>if (m_last_program_id != shader.getProgramId()) {
    glUseProgram(shader.getProgramId()); m_last_program_id = shader.getProgramId(); }\<close>
\<close>

definition useProgramIfChanged :: "addr \<Rightarrow> 'f world \<Rightarrow> 'f world" where
  "useProgramIfChanged shader w =
     (if m_last_program_id (renderer w) \<noteq> getProgramId (shader_at w shader)
      then set_last_program_id (getProgramId (shader_at w shader))
             (driver (GlUseProgram (getProgramId (shader_at w shader))) w)
      else w)"

fun uniform_write :: "GLint \<Rightarrow> 'f uniform_value \<Rightarrow> 'f call" where
  "uniform_write loc (UInt v) = GlUniform1i loc v"
| "uniform_write loc (UVec3 v) = GlUniform3f loc (vec3_x v) (vec3_y v) (vec3_z v)"
| "uniform_write loc (UFloat v) = GlUniform1f loc v"
| "uniform_write loc (UMatrix mtx) = GlUniformMatrix4fv loc 1 False [mtx]"
| "uniform_write loc (UMatrices matrices count) = GlUniformMatrix4fv loc count False matrices"

definition setUniform ::
  "addr \<Rightarrow> string \<Rightarrow> uint32_t \<Rightarrow> 'f uniform_value \<Rightarrow> 'f world \<Rightarrow> 'f world" where
  "setUniform shader name name_hash v w =
     (let loc = getUniformLocation (shader_at w shader) name name_hash in
      if loc \<ge> 0
      then driver (uniform_write loc v) (useProgramIfChanged shader w)
      else w)"

fun fixed_uniform_write :: "GLint \<Rightarrow> 'f fixed_uniform_value \<Rightarrow> 'f call" where
  "fixed_uniform_write loc (FVec3 v) = GlUniform3f loc (vec3_x v) (vec3_y v) (vec3_z v)"
| "fixed_uniform_write loc (FVec4 v) =
     GlUniform4f loc (vec4_x v) (vec4_y v) (vec4_z v) (vec4_w v)"
| "fixed_uniform_write loc (FFloat v) = GlUniform1f loc v"
| "fixed_uniform_write loc (FMatrix mtx) = GlUniformMatrix4fv loc 1 False [mtx]"
| "fixed_uniform_write loc (FMatrices matrices count) =
     GlUniformMatrix4fv loc count False matrices"

definition setFixedCachedUniform ::
  "addr \<Rightarrow> FixedCachedUniforms \<Rightarrow> 'f fixed_uniform_value \<Rightarrow> 'f world \<Rightarrow> 'f world" where
  "setFixedCachedUniform shader name v w =
     (let loc = getFixedCachedUniformLocation (shader_at w shader) name in
      if loc \<ge> 0
      then driver (fixed_uniform_write loc v) (useProgramIfChanged shader w)
      else w)"

section \<open>Shaders, materials and geometry\<close>

definition applyShader :: "addr \<Rightarrow> uint32_t \<Rightarrow> 'f world \<Rightarrow> 'f world" where
  "applyShader shader combination w =
     (let pass_hash = m_current_pass_hash (renderer w);
          w1 = (driver (Shader_setCurrentCombination shader combination pass_hash) w)
                 \<lparr>shader_at := (shader_at w)
                    (shader := setCurrentCombination (shader_at w shader) combination pass_hash)\<rparr>;
          ident = getProgramId (shader_at w1 shader);
          w2 = set_last_program_id ident w1;
          w3 = driver (GlUseProgram ident) w2;
          w4 = setFixedCachedUniform shader VIEW_MATRIX (FMatrix (m_view_matrix (renderer w3))) w3
      in setFixedCachedUniform shader PROJECTION_MATRIX
           (FMatrix (m_projection_matrix (renderer w4))) w4)"

text \<open>
  Modelled from the spec: \<open>Material::apply\<close> (graphics/material.h is not part of this file)
  applies the material's shader, with the material's shader combination.
\<close>

definition applyMaterial :: "addr \<Rightarrow> 'f world \<Rightarrow> 'f world" where
  "applyMaterial material w =
     applyShader (material_shader (material_at w material))
       (material_shader_combination (material_at w material))
       (driver (Material_apply material) w)"

text \<open>
  Modelled from the spec: \<open>Geometry::bindBuffers\<close> (graphics/geometry.h is not part of this
  file) binds the geometry's vertex buffer and index buffer.
\<close>

definition bindBuffers :: "addr \<Rightarrow> 'f world \<Rightarrow> 'f world" where
  "bindBuffers geometry w =
     driver (GlBindBuffer GL_ELEMENT_ARRAY_BUFFER (geometry_index_buffer (geometry_at w geometry)))
       (driver (GlBindBuffer GL_ARRAY_BUFFER (geometry_vertex_buffer (geometry_at w geometry)))
          (driver (Geometry_bindBuffers geometry) w))"

text \<open>\<open>*mesh->getMaterial()->getShader()\<close>, read when the call is made.\<close>

definition mesh_shader :: "'f world \<Rightarrow> addr \<Rightarrow> addr" where
  "mesh_shader w mesh = material_shader (material_at w (mesh_material (mesh_at w mesh)))"

definition bindGeometry :: "addr \<Rightarrow> addr \<Rightarrow> 'f world \<Rightarrow> 'f world" where
  "bindGeometry geometry mesh w =
     (if m_last_bind_geometry_mesh (renderer w) \<noteq> Some mesh
      then
        let w1 = (case m_last_bind_geometry_mesh (renderer w) of
                    None \<Rightarrow> w
                  | Some previous \<Rightarrow> driver (VertexDef_end previous (mesh_shader w previous)) w);
            w2 = bindBuffers geometry w1;
            w3 = w2\<lparr>renderer := (renderer w2)\<lparr>m_last_bind_geometry := Some geometry\<rparr>\<rparr>;
            w4 = w3\<lparr>renderer := (renderer w3)\<lparr>m_last_bind_geometry_mesh := Some mesh\<rparr>\<rparr>
        in driver (VertexDef_begin mesh (mesh_shader w4 mesh)
                     (mesh_attribute_array_offset (mesh_at w4 mesh))) w4
      else w)"

definition renderGeometry :: "int \<Rightarrow> int \<Rightarrow> 'f world \<Rightarrow> 'f world" where
  "renderGeometry indices_offset vertex_count w =
     driver (GlDrawElements vertex_count indices_offset) w"

text \<open>The body of the loop of \<open>renderModel\<close>, for the mesh at index \<open>i\<close>.\<close>

definition renderModel_mesh :: "Model \<Rightarrow> 'f Matrix \<Rightarrow> addr \<Rightarrow> 'f world \<Rightarrow> 'f world" where
  "renderModel_mesh model transform mesh w =
     (let w1 = applyMaterial (mesh_material (mesh_at w mesh)) w;
          w2 = setFixedCachedUniform (mesh_shader w1 mesh) WORLD_MATRIX (FMatrix transform) w1;
          w3 = bindGeometry (model_geometry model) mesh w2
      in renderGeometry (mesh_indices_offset (mesh_at w3 mesh))
           (mesh_index_count (mesh_at w3 mesh)) w3)"

function renderModel_loop ::
  "Model \<Rightarrow> 'f Matrix \<Rightarrow> nat \<Rightarrow> nat \<Rightarrow> 'f world \<Rightarrow> 'f world" where
  "renderModel_loop model transform i c w =
     (if i < c
      then renderModel_loop model transform (i + 1) c
             (renderModel_mesh model transform (model_meshes model ! i) w)
      else w)"
  by pat_completeness auto
termination
  by (relation "measure (\<lambda>(model, transform, i, c, w). c - i)") auto

definition renderModel :: "Model \<Rightarrow> 'f Matrix \<Rightarrow> 'f world \<Rightarrow> 'f world" where
  "renderModel model transform w =
     (if \<not> model_is_ready model then w
      else renderModel_loop model transform 0 (length (model_meshes model)) w)"

section \<open>Renderer state, cleanup and frames\<close>

definition and_then :: "fault + 'a \<Rightarrow> ('a \<Rightarrow> fault + 'b) \<Rightarrow> fault + 'b" where
  "and_then r f = (case r of Inl e \<Rightarrow> Inl e | Inr x \<Rightarrow> f x)"

text \<open>
  The constructor writes six fields (the attribute-name array through its initialiser, the
  others in its body); every other field of the modelled state keeps what the storage the
  object is constructed in held before.
\<close>

definition RendererImpl_ctor :: "(string \<Rightarrow> uint32_t) \<Rightarrow> 'f RendererImpl \<Rightarrow> 'f RendererImpl" where
  "RendererImpl_ctor crc32 storage =
     storage\<lparr>m_attribute_names := [],
             m_current_pass_hash := crc32 ''MAIN'',
             m_last_bind_geometry := None,
             m_last_bind_geometry_mesh := None,
             m_last_program_id := 0xffffFFFF,
             m_is_editor_wireframe := False\<rparr>"

definition setViewMatrix :: "'f Matrix \<Rightarrow> 'f world \<Rightarrow> 'f world" where
  "setViewMatrix matrix w = w\<lparr>renderer := (renderer w)\<lparr>m_view_matrix := matrix\<rparr>\<rparr>"

definition setProjectionMatrix :: "'f Matrix \<Rightarrow> 'f world \<Rightarrow> 'f world" where
  "setProjectionMatrix matrix w = w\<lparr>renderer := (renderer w)\<lparr>m_projection_matrix := matrix\<rparr>\<rparr>"

definition setRenderDevice :: "addr \<Rightarrow> 'f world \<Rightarrow> 'f world" where
  "setRenderDevice device w = w\<lparr>renderer := (renderer w)\<lparr>m_render_device := Some device\<rparr>\<rparr>"

definition setPass :: "uint32_t \<Rightarrow> 'f world \<Rightarrow> 'f world" where
  "setPass pass_hash w = w\<lparr>renderer := (renderer w)\<lparr>m_current_pass_hash := pass_hash\<rparr>\<rparr>"

definition setEditorWireframe :: "bool \<Rightarrow> 'f world \<Rightarrow> 'f world" where
  "setEditorWireframe is_wireframe w =
     w\<lparr>renderer := (renderer w)\<lparr>m_is_editor_wireframe := is_wireframe\<rparr>\<rparr>"

definition enableAlphaToCoverage :: "bool \<Rightarrow> 'f world \<Rightarrow> 'f world" where
  "enableAlphaToCoverage enable w =
     (if enable
      then driver (GlEnable GL_SAMPLE_ALPHA_TO_COVERAGE) (driver (GlEnable GL_MULTISAMPLE) w)
      else driver (GlDisable GL_SAMPLE_ALPHA_TO_COVERAGE) (driver (GlDisable GL_MULTISAMPLE) w))"

definition enableZTest :: "bool \<Rightarrow> 'f world \<Rightarrow> 'f world" where
  "enableZTest enable w =
     (if enable then driver (GlEnable GL_DEPTH_TEST) w else driver (GlDisable GL_DEPTH_TEST) w)"

text \<open>The loop of \<open>cleanup\<close> over the 16 texture units, from unit \<open>i\<close> on.\<close>

function cleanup_textures :: "nat \<Rightarrow> 'f world \<Rightarrow> 'f world" where
  "cleanup_textures i w =
     (if i < 16
      then cleanup_textures (i + 1) (driver (GlBindTexture2D 0) (driver (GlActiveTexture i) w))
      else w)"
  by pat_completeness auto
termination
  by (relation "measure (\<lambda>(i, w). 16 - i)") auto

text \<open>
  \<open>cleanup\<close> tests \<open>m_last_bind_geometry\<close> and then dereferences
  \<open>m_last_bind_geometry_mesh\<close>; dereferencing a null pointer is a fault.
\<close>

definition cleanup :: "'f world \<Rightarrow> fault + 'f world" where
  "cleanup w =
     and_then
       (if m_last_bind_geometry (renderer w) \<noteq> None
        then (case m_last_bind_geometry_mesh (renderer w) of
                None \<Rightarrow> Inl NullPointerDereference
              | Some mesh \<Rightarrow> Inr (driver (VertexDef_end mesh (mesh_shader w mesh)) w))
        else Inr w)
       (\<lambda>w1.
          let w2 = w1\<lparr>renderer := (renderer w1)\<lparr>m_last_bind_geometry := None\<rparr>\<rparr>;
              w3 = w2\<lparr>renderer := (renderer w2)\<lparr>m_last_bind_geometry_mesh := None\<rparr>\<rparr>;
              w4 = driver (GlBindBuffer GL_ARRAY_BUFFER 0) w3;
              w5 = driver (GlBindBuffer GL_ELEMENT_ARRAY_BUFFER 0) w4;
              w6 = driver (GlUseProgram 0) w5;
              w7 = cleanup_textures 0 w6
          in Inr (driver (GlActiveTexture 0) w7))"

section \<open>The attribute-name registry\<close>

text \<open>The search loop of \<open>getAttributeNameIndex\<close>, from index \<open>i\<close> on.\<close>

function find_attribute_name :: "string list \<Rightarrow> string \<Rightarrow> nat \<Rightarrow> nat option" where
  "find_attribute_name names name i =
     (if i < length names
      then (if names ! i = name then Some i else find_attribute_name names name (i + 1))
      else None)"
  by pat_completeness auto
termination
  by (relation "measure (\<lambda>(names, name, i). length names - i)") auto

definition getAttributeNameIndex :: "string \<Rightarrow> 'f RendererImpl \<Rightarrow> int \<times> 'f RendererImpl" where
  "getAttributeNameIndex name r =
     (case find_attribute_name (m_attribute_names r) name 0 of
        Some i \<Rightarrow> (int i, r)
      | None \<Rightarrow>
          (let r1 = r\<lparr>m_attribute_names := m_attribute_names r @ [name]\<rparr>
           in (int (length (m_attribute_names r1)) - 1, r1)))"

section \<open>Calls into the renderer and frames\<close>

fun exec_call :: "'f renderer_call \<Rightarrow> 'f world \<Rightarrow> fault + 'f world" where
  "exec_call (Call_setViewMatrix matrix) w = Inr (setViewMatrix matrix w)"
| "exec_call (Call_setProjectionMatrix matrix) w = Inr (setProjectionMatrix matrix w)"
| "exec_call (Call_setRenderDevice device) w = Inr (setRenderDevice device w)"
| "exec_call Call_cleanup w = cleanup w"
| "exec_call (Call_setUniform shader name name_hash v) w =
     Inr (setUniform shader name name_hash v w)"
| "exec_call (Call_setPass pass_hash) w = Inr (setPass pass_hash w)"
| "exec_call (Call_applyShader shader combination) w = Inr (applyShader shader combination w)"
| "exec_call (Call_enableAlphaToCoverage enable) w = Inr (enableAlphaToCoverage enable w)"
| "exec_call (Call_enableZTest enable) w = Inr (enableZTest enable w)"
| "exec_call (Call_renderModel model transform) w = Inr (renderModel model transform w)"
| "exec_call (Call_setEditorWireframe is_wireframe) w = Inr (setEditorWireframe is_wireframe w)"
| "exec_call (Call_getAttributeNameIndex name) w =
     Inr (w\<lparr>renderer := snd (getAttributeNameIndex name (renderer w))\<rparr>)"
| "exec_call (Call_setFixedCachedUniform shader name v) w =
     Inr (setFixedCachedUniform shader name v w)"
| "exec_call (Call_bindGeometry geometry mesh) w = Inr (bindGeometry geometry mesh w)"
| "exec_call (Call_renderGeometry indices_offset vertex_count) w =
     Inr (renderGeometry indices_offset vertex_count w)"

fun exec_calls :: "'f renderer_call list \<Rightarrow> 'f world \<Rightarrow> fault + 'f world" where
  "exec_calls [] w = Inr w"
| "exec_calls (c # cs) w = and_then (exec_call c w) (exec_calls cs)"

text \<open>
  \<open>render\<close> and \<open>renderGame\<close> use the device; using a device that is not alive at the
  address is a fault.
\<close>

definition render :: "addr \<Rightarrow> 'f world \<Rightarrow> fault + 'f world" where
  "render device w =
     (let w1 = driver (GlEnable GL_DEPTH_TEST) w;
          w2 = driver (GlDisable GL_BLEND) w1
      in case device_at w2 device of
           None \<Rightarrow> Inl InvalidPointerDereference
         | Some pipeline \<Rightarrow>
             and_then (exec_calls pipeline (driver (Pipeline_render device) w2)) cleanup)"

definition renderGame :: "'f world \<Rightarrow> fault + 'f world" where
  "renderGame w =
     (case m_render_device (renderer w) of
        None \<Rightarrow> Inr w
      | Some device \<Rightarrow>
          (case device_at w device of
             None \<Rightarrow> Inl InvalidPointerDereference
           | Some pipeline \<Rightarrow>
               and_then (render device (driver (Device_beginFrame device) w))
                 (\<lambda>w1. Inr (driver (Device_endFrame device) w1))))"

datatype 'f operation =
    Op_call "'f renderer_call"
  | Op_renderGame
  | Op_render addr

fun exec_operation :: "'f operation \<Rightarrow> 'f world \<Rightarrow> fault + 'f world" where
  "exec_operation (Op_call c) w = exec_call c w"
| "exec_operation Op_renderGame w = renderGame w"
| "exec_operation (Op_render device) w = render device w"

fun exec_operations :: "'f operation list \<Rightarrow> 'f world \<Rightarrow> fault + 'f world" where
  "exec_operations [] w = Inr w"
| "exec_operations (x # xs) w = and_then (exec_operation x w) (exec_operations xs)"

section \<open>Notions used in the statements\<close>

text \<open>The calls made between an earlier world and a later one.\<close>

definition calls_since :: "'f world \<Rightarrow> 'f world \<Rightarrow> 'f call list" where
  "calls_since w w' = drop (length (calls w)) (calls w')"

fun is_use_program :: "'f call \<Rightarrow> bool" where
  "is_use_program (GlUseProgram p) = True"
| "is_use_program _ = False"

definition program_binds :: "'f call list \<Rightarrow> nat" where
  "program_binds cs = length (filter is_use_program cs)"

text \<open>
  A sequence of \<open>setUniform\<close> calls, each given by its shader, name, name hash and value,
  made one after the other.
\<close>

type_synonym 'f uniform_request = "addr \<times> string \<times> uint32_t \<times> 'f uniform_value"

fun setUniform_request :: "'f uniform_request \<Rightarrow> 'f world \<Rightarrow> 'f world" where
  "setUniform_request (shader, name, name_hash, v) w = setUniform shader name name_hash v w"

fun setUniform_sequence :: "'f uniform_request list \<Rightarrow> 'f world \<Rightarrow> 'f world" where
  "setUniform_sequence [] w = w"
| "setUniform_sequence (r # rs) w = setUniform_sequence rs (setUniform_request r w)"

fun request_program :: "'f world \<Rightarrow> 'f uniform_request \<Rightarrow> GLuint" where
  "request_program w (shader, name, name_hash, v) = getProgramId (shader_at w shader)"

fun request_resolves :: "'f world \<Rightarrow> 'f uniform_request \<Rightarrow> bool" where
  "request_resolves w (shader, name, name_hash, v) =
     (getUniformLocation (shader_at w shader) name name_hash \<ge> 0)"

text \<open>The geometry memo: both pointers null, or both set.\<close>

definition memo_consistent :: "'f RendererImpl \<Rightarrow> bool" where
  "memo_consistent r =
     ((m_last_bind_geometry r \<noteq> None) = (m_last_bind_geometry_mesh r \<noteq> None))"

text \<open>The state of the renderer, its collaborators and the driver, without the list of calls.\<close>

definition observable :: "'f world \<Rightarrow> 'f world" where
  "observable w = w\<lparr>calls := []\<rparr>"

fun is_vertex_def_end :: "'f call \<Rightarrow> bool" where
  "is_vertex_def_end (VertexDef_end mesh shader) = True"
| "is_vertex_def_end _ = False"

fun is_draw :: "'f call \<Rightarrow> bool" where
  "is_draw (GlDrawElements n off) = True"
| "is_draw _ = False"

fun is_material_apply :: "'f call \<Rightarrow> bool" where
  "is_material_apply (Material_apply m) = True"
| "is_material_apply _ = False"

text \<open>The driver call that writes the value of a request.\<close>

fun request_write :: "'f world \<Rightarrow> 'f uniform_request \<Rightarrow> 'f call" where
  "request_write w (shader, name, name_hash, v) =
     uniform_write (getUniformLocation (shader_at w shader) name name_hash) v"

subsection \<open>Concrete inputs\<close>

text \<open>
  A world to evaluate the operations in: the shader at address \<open>a\<close> has program
  \<open>a + 5\<close> selected, one named uniform and two of the fixed uniforms; the renderer is
  freshly constructed in storage that held arbitrary values; no render device is alive.
  The float values of the concrete inputs are written as the numbers they stand for.
\<close>

definition example_program :: "GLuint \<Rightarrow> Program" where
  "example_program p =
     \<lparr>program_id = p,
      uniform_location = (\<lambda>name name_hash. if name = ''u_color'' then 3 else - 1),
      fixed_location = (\<lambda>name. case name of WORLD_MATRIX \<Rightarrow> 0 | VIEW_MATRIX \<Rightarrow> 1
                                | PROJECTION_MATRIX \<Rightarrow> - 1 | OTHER_FIXED_UNIFORM k \<Rightarrow> - 1)\<rparr>"

definition example_shader :: "addr \<Rightarrow> Shader" where
  "example_shader a =
     \<lparr>current_combination = example_program (of_nat a + 5),
      combinations = (\<lambda>combination pass_hash. example_program (of_nat a + 5 + combination))\<rparr>"

definition example_matrix :: "real Matrix" where
  "example_matrix =
     \<lparr>m11 = 1, m12 = 0, m13 = 0, m14 = 0,
      m21 = 0, m22 = 1, m23 = 0, m24 = 0,
      m31 = 0, m32 = 0, m33 = 1, m34 = 0,
      m41 = 0, m42 = 0, m43 = 0, m44 = 1\<rparr>"

definition example_storage :: "real RendererImpl" where
  "example_storage =
     \<lparr>m_render_device = Some 7, m_is_editor_wireframe = True,
      m_last_bind_geometry = Some 3, m_last_bind_geometry_mesh = None,
      m_last_program_id = 9, m_current_pass_hash = 0,
      m_view_matrix = example_matrix,
      m_projection_matrix = example_matrix,
      m_debug_shader = None, m_attribute_names = []\<rparr>"

definition example_gl :: gl_state where
  "example_gl =
     \<lparr>gl_current_program = 0, gl_array_buffer = 0, gl_element_array_buffer = 0,
      gl_active_texture = 0, gl_texture_2d = (\<lambda>unit. 0), gl_enabled = (\<lambda>capability. False)\<rparr>"

definition example_world :: "real world" where
  "example_world =
     \<lparr>renderer = RendererImpl_ctor (\<lambda>name. of_nat (length name)) example_storage,
      shader_at = example_shader,
      material_at = (\<lambda>a. \<lparr>material_shader = a, material_shader_combination = 0\<rparr>),
      mesh_at = (\<lambda>a. \<lparr>mesh_material = a, mesh_attribute_array_offset = 32 * int a,
                       mesh_indices_offset = 6 * int a, mesh_index_count = 6\<rparr>),
      geometry_at = (\<lambda>a. \<lparr>geometry_vertex_buffer = 1, geometry_index_buffer = 2\<rparr>),
      device_at = Map.empty,
      gl = example_gl,
      calls = []\<rparr>"

definition example_requests :: "real uniform_request list" where
  "example_requests =
     [(0, ''u_missing'', 0, UInt 1), (0, ''u_color'', 0, UInt 1), (0, ''u_color'', 0, UFloat 2),
      (0, ''u_color'', 0, UInt 4)]"

subsection \<open>What a successful cleanup leaves\<close>

text \<open>
  The driver state after the driver calls of \<open>cleanup\<close>, the calls its texture loop makes
  from unit \<open>i\<close> on, the fixed calls it makes on the driver, the teardown it makes of the
  remembered mesh, and the world it returns when it does not fault.
\<close>

definition cleaned_gl :: "gl_state \<Rightarrow> gl_state" where
  "cleaned_gl g =
     g\<lparr>gl_current_program := 0, gl_array_buffer := 0, gl_element_array_buffer := 0,
       gl_active_texture := 0,
       gl_texture_2d := (\<lambda>unit. if unit < 16 then 0 else gl_texture_2d g unit)\<rparr>"

definition texture_unbinds :: "nat \<Rightarrow> 'f call list" where
  "texture_unbinds i = concat (map (\<lambda>unit. [GlActiveTexture unit, GlBindTexture2D 0]) [i..<16])"

definition cleanup_driver_calls :: "'f call list" where
  "cleanup_driver_calls =
     [GlBindBuffer GL_ARRAY_BUFFER 0, GlBindBuffer GL_ELEMENT_ARRAY_BUFFER 0, GlUseProgram 0]
     @ texture_unbinds 0 @ [GlActiveTexture 0]"

definition cleanup_teardown :: "'f world \<Rightarrow> 'f call list" where
  "cleanup_teardown w =
     (case m_last_bind_geometry (renderer w) of
        None \<Rightarrow> []
      | Some geometry \<Rightarrow>
          (case m_last_bind_geometry_mesh (renderer w) of
             None \<Rightarrow> []
           | Some mesh \<Rightarrow> [VertexDef_end mesh (mesh_shader w mesh)]))"

definition cleaned_up :: "'f world \<Rightarrow> 'f world" where
  "cleaned_up w =
     w\<lparr>renderer := (renderer w)\<lparr>m_last_bind_geometry := None,
                                 m_last_bind_geometry_mesh := None\<rparr>,
       gl := cleaned_gl (gl w),
       calls := calls w @ cleanup_teardown w @ cleanup_driver_calls\<rparr>"

subsection \<open>What rendering a mesh shows of itself\<close>

text \<open>
  The material applications and indexed draws among a list of calls, and the two that
  rendering one mesh makes: the application of the mesh's material, then the draw of the
  mesh's index count at its index offset.
\<close>

definition is_material_or_draw :: "'f call \<Rightarrow> bool" where
  "is_material_or_draw c = (is_material_apply c \<or> is_draw c)"

definition mesh_events :: "'f world \<Rightarrow> addr \<Rightarrow> 'f call list" where
  "mesh_events w mesh =
     [Material_apply (mesh_material (mesh_at w mesh)),
      GlDrawElements (mesh_index_count (mesh_at w mesh)) (mesh_indices_offset (mesh_at w mesh))]"

text \<open>A model of the meshes at addresses 2 and 3, on the geometry at address 4.\<close>

definition example_model :: "bool \<Rightarrow> Model" where
  "example_model ready = \<lparr>model_is_ready = ready, model_meshes = [2, 3], model_geometry = 4\<rparr>"

text \<open>
  \<open>getAttributeNameIndex\<close> called for each name of a list in turn: the indices returned,
  in order, and the renderer left.
\<close>

fun register_names :: "string list \<Rightarrow> 'f RendererImpl \<Rightarrow> int list \<times> 'f RendererImpl" where
  "register_names [] r = ([], r)"
| "register_names (n # ns) r =
     (let (i, r1) = getAttributeNameIndex n r;
          (indices, r2) = register_names ns r1
      in (i # indices, r2))"

text \<open>
  The calls that rendering one mesh of a model is to make, written out from the scene:
  the application of the mesh's material and, with it, of the material's shader (the
  combination selected for the current pass, the bind of its program, the view and
  projection matrices where the program has them); the world matrix from the transform
  where the program has it; unless the mesh is the one already bound, the teardown of the
  bound mesh's layout against that mesh's shader, the bind of the model's geometry and
  the setup of the mesh's layout against its shader at its attribute-array offset; the
  draw of the mesh's index count at its index offset.
\<close>

definition mesh_trace ::
  "'f world \<Rightarrow> Model \<Rightarrow> 'f Matrix \<Rightarrow> addr option \<Rightarrow> addr \<Rightarrow> 'f call list" where
  "mesh_trace w model transform bound mesh =
     (let material = mesh_material (mesh_at w mesh);
          shader = material_shader (material_at w material);
          combination = material_shader_combination (material_at w material);
          pass_hash = m_current_pass_hash (renderer w);
          program = combinations (shader_at w shader) combination pass_hash;
          geometry = model_geometry model
      in [Material_apply material,
          Shader_setCurrentCombination shader combination pass_hash,
          GlUseProgram (program_id program)]
         @ (if 0 \<le> fixed_location program VIEW_MATRIX
            then [GlUniformMatrix4fv (fixed_location program VIEW_MATRIX) 1 False
                    [m_view_matrix (renderer w)]]
            else [])
         @ (if 0 \<le> fixed_location program PROJECTION_MATRIX
            then [GlUniformMatrix4fv (fixed_location program PROJECTION_MATRIX) 1 False
                    [m_projection_matrix (renderer w)]]
            else [])
         @ (if 0 \<le> fixed_location program WORLD_MATRIX
            then [GlUniformMatrix4fv (fixed_location program WORLD_MATRIX) 1 False [transform]]
            else [])
         @ (if bound \<noteq> Some mesh
            then (case bound of
                    None \<Rightarrow> []
                  | Some previous \<Rightarrow> [VertexDef_end previous (mesh_shader w previous)])
                 @ [Geometry_bindBuffers geometry,
                    GlBindBuffer GL_ARRAY_BUFFER (geometry_vertex_buffer (geometry_at w geometry)),
                    GlBindBuffer GL_ELEMENT_ARRAY_BUFFER
                      (geometry_index_buffer (geometry_at w geometry)),
                    VertexDef_begin mesh shader (mesh_attribute_array_offset (mesh_at w mesh))]
            else [])
         @ [GlDrawElements (mesh_index_count (mesh_at w mesh))
              (mesh_indices_offset (mesh_at w mesh))])"

text \<open>
  The calls for the meshes of a model in order; after a mesh is rendered it is the bound
  mesh.
\<close>

fun model_trace ::
  "'f world \<Rightarrow> Model \<Rightarrow> 'f Matrix \<Rightarrow> addr option \<Rightarrow> addr list \<Rightarrow> 'f call list" where
  "model_trace w model transform bound [] = []"
| "model_trace w model transform bound (mesh # meshes) =
     mesh_trace w model transform bound mesh
     @ model_trace w model transform (Some mesh) meshes"

section \<open>Basic facts\<close>

lemmas example_defs =
  example_world_def example_gl_def example_storage_def example_shader_def example_program_def
  RendererImpl_ctor_def getProgramId_def getUniformLocation_def getFixedCachedUniformLocation_def

lemma driver_simps [simp]:
  "calls (driver c w) = calls w @ [c]"
  "gl (driver c w) = gl_exec c (gl w)"
  "renderer (driver c w) = renderer w"
  "shader_at (driver c w) = shader_at w"
  "material_at (driver c w) = material_at w"
  "mesh_at (driver c w) = mesh_at w"
  "geometry_at (driver c w) = geometry_at w"
  "device_at (driver c w) = device_at w"
  by (simp_all add: driver_def)

lemma set_last_program_id_simps [simp]:
  "calls (set_last_program_id p w) = calls w"
  "gl (set_last_program_id p w) = gl w"
  "renderer (set_last_program_id p w) = (renderer w)\<lparr>m_last_program_id := p\<rparr>"
  "shader_at (set_last_program_id p w) = shader_at w"
  "material_at (set_last_program_id p w) = material_at w"
  "mesh_at (set_last_program_id p w) = mesh_at w"
  "geometry_at (set_last_program_id p w) = geometry_at w"
  "device_at (set_last_program_id p w) = device_at w"
  by (simp_all add: set_last_program_id_def)

lemma useProgramIfChanged_frame [simp]:
  "shader_at (useProgramIfChanged sh w) = shader_at w"
  "material_at (useProgramIfChanged sh w) = material_at w"
  "mesh_at (useProgramIfChanged sh w) = mesh_at w"
  "geometry_at (useProgramIfChanged sh w) = geometry_at w"
  "device_at (useProgramIfChanged sh w) = device_at w"
  by (simp_all add: useProgramIfChanged_def)

lemma useProgramIfChanged_same:
  "m_last_program_id (renderer w) = getProgramId (shader_at w sh) \<Longrightarrow>
   useProgramIfChanged sh w = w"
  by (simp add: useProgramIfChanged_def)

lemma useProgramIfChanged_cache [simp]:
  "m_last_program_id (renderer (useProgramIfChanged sh w)) = getProgramId (shader_at w sh)"
  by (simp add: useProgramIfChanged_def)

lemma is_use_program_uniform_write [simp]: "\<not> is_use_program (uniform_write loc v)"
  by (cases v) simp_all

lemma is_use_program_fixed_uniform_write [simp]: "\<not> is_use_program (fixed_uniform_write loc v)"
  by (cases v) simp_all

lemma setUniform_frame [simp]:
  "shader_at (setUniform sh name h v w) = shader_at w"
  "material_at (setUniform sh name h v w) = material_at w"
  "mesh_at (setUniform sh name h v w) = mesh_at w"
  "geometry_at (setUniform sh name h v w) = geometry_at w"
  "device_at (setUniform sh name h v w) = device_at w"
  by (simp_all add: setUniform_def Let_def)

lemma gl_exec_uniform_write [simp]: "gl_exec (uniform_write loc v) g = g"
  by (cases v) simp_all

lemma gl_exec_fixed_uniform_write [simp]: "gl_exec (fixed_uniform_write loc v) g = g"
  by (cases v) simp_all

lemma calls_since_append: "calls w' = calls w @ l \<Longrightarrow> calls_since w w' = l"
  by (simp add: calls_since_def)

lemma program_binds_simps [simp]:
  "program_binds [] = 0"
  "program_binds (c # cs) = (if is_use_program c then 1 else 0) + program_binds cs"
  "program_binds (xs @ ys) = program_binds xs + program_binds ys"
  by (simp_all add: program_binds_def)

lemma setFixedCachedUniform_frame [simp]:
  "shader_at (setFixedCachedUniform sh n v w) = shader_at w"
  "material_at (setFixedCachedUniform sh n v w) = material_at w"
  "mesh_at (setFixedCachedUniform sh n v w) = mesh_at w"
  "geometry_at (setFixedCachedUniform sh n v w) = geometry_at w"
  "device_at (setFixedCachedUniform sh n v w) = device_at w"
  by (simp_all add: setFixedCachedUniform_def Let_def)

section \<open>C1: a sequence of uniform writes binds the program at most once\<close>

lemma setUniform_request_frame [simp]:
  "shader_at (setUniform_request r w) = shader_at w"
  by (cases r) simp

lemma request_program_frame:
  "shader_at w' = shader_at w \<Longrightarrow> request_program w' r = request_program w r"
  by (cases r) simp

lemma request_resolves_frame:
  "shader_at w' = shader_at w \<Longrightarrow> request_resolves w' r = request_resolves w r"
  by (cases r) simp

lemma setUniform_request_unresolved:
  "\<not> request_resolves w r \<Longrightarrow> setUniform_request r w = w"
  by (cases r) (simp add: setUniform_def Let_def)

lemma setUniform_request_resolved:
  "request_resolves w r \<Longrightarrow>
   calls (setUniform_request r w) =
     calls w @ (if m_last_program_id (renderer w) \<noteq> request_program w r
                then [GlUseProgram (request_program w r)] else []) @ [request_write w r]
   \<and> m_last_program_id (renderer (setUniform_request r w)) = request_program w r"
  by (cases r) (simp add: setUniform_def Let_def useProgramIfChanged_def)

lemma is_use_program_request_write [simp]: "\<not> is_use_program (request_write w r)"
  by (cases r) simp

lemma setUniform_sequence_frame [simp]:
  "shader_at (setUniform_sequence rs w) = shader_at w"
  by (induction rs arbitrary: w) simp_all

lemma setUniform_sequence_unresolved:
  "\<forall>r\<in>set rs. \<not> request_resolves w r \<Longrightarrow> setUniform_sequence rs w = w"
  by (induction rs) (simp_all add: setUniform_request_unresolved)

lemma setUniform_sequence_append:
  "setUniform_sequence (xs @ ys) w = setUniform_sequence ys (setUniform_sequence xs w)"
  by (induction xs arbitrary: w) simp_all

lemma setUniform_sequence_calls:
  assumes "\<forall>r\<in>set rs. request_program w r = pid"
  shows "\<exists>l. calls (setUniform_sequence rs w) = calls w @ l
           \<and> program_binds l =
               (if m_last_program_id (renderer w) \<noteq> pid \<and> (\<exists>r\<in>set rs. request_resolves w r)
                then 1 else 0)
           \<and> m_last_program_id (renderer (setUniform_sequence rs w)) =
               (if \<exists>r\<in>set rs. request_resolves w r then pid
                else m_last_program_id (renderer w))"
  using assms
proof (induction rs arbitrary: w)
  case Nil
  then show ?case by simp
next
  case (Cons r rs)
  let ?w1 = "setUniform_request r w"
  have fr: "shader_at ?w1 = shader_at w" by simp
  have same: "\<forall>q\<in>set rs. request_program ?w1 q = pid"
    using Cons.prems by (simp add: request_program_frame [OF fr])
  have res: "\<And>q. request_resolves ?w1 q = request_resolves w q"
    by (rule request_resolves_frame [OF fr])
  from Cons.IH [OF same] obtain l where
    l: "calls (setUniform_sequence rs ?w1) = calls ?w1 @ l"
       "program_binds l =
          (if m_last_program_id (renderer ?w1) \<noteq> pid \<and> (\<exists>q\<in>set rs. request_resolves w q)
           then 1 else 0)"
       "m_last_program_id (renderer (setUniform_sequence rs ?w1)) =
          (if \<exists>q\<in>set rs. request_resolves w q then pid
           else m_last_program_id (renderer ?w1))"
    unfolding res by blast
  have pr: "request_program w r = pid" using Cons.prems by simp
  show ?case
  proof (cases "request_resolves w r")
    case False
    then have "?w1 = w" by (rule setUniform_request_unresolved)
    with l False show ?thesis by simp
  next
    case True
    from setUniform_request_resolved [OF True] pr
    have c1: "calls ?w1 = calls w @ (if m_last_program_id (renderer w) \<noteq> pid
                then [GlUseProgram pid] else []) @ [request_write w r]"
      and p1: "m_last_program_id (renderer ?w1) = pid" by simp_all
    show ?thesis using l True c1 p1 by simp
  qed
qed

text \<open>
  Claim C1. For every sequence of \<open>setUniform\<close> calls (any overload) whose shaders all
  have the same program id, started with a cached program id different from that program,
  \<open>glUseProgram\<close> is called at most once in the whole sequence: exactly once if some call
  resolves its location and not at all otherwise. The calls before the first resolved one
  change nothing; the first resolved call makes exactly the bind and its write and leaves
  the cache equal to the program; no later call of the sequence binds.
\<close>

theorem setUniform_sequence_binds_once:
  assumes same: "\<forall>r\<in>set rs. request_program w r = pid"
    and diff: "m_last_program_id (renderer w) \<noteq> pid"
  shows "program_binds (calls_since w (setUniform_sequence rs w)) \<le> 1
       \<and> program_binds (calls_since w (setUniform_sequence rs w)) =
           (if \<exists>r\<in>set rs. request_resolves w r then 1 else 0)
       \<and> (\<forall>pre r post.
            rs = pre @ r # post \<and> (\<forall>q\<in>set pre. \<not> request_resolves w q) \<and> request_resolves w r
            \<longrightarrow> setUniform_sequence pre w = w
              \<and> calls_since w (setUniform_sequence (pre @ [r]) w) =
                  [GlUseProgram pid, request_write w r]
              \<and> m_last_program_id (renderer (setUniform_sequence (pre @ [r]) w)) = pid
              \<and> program_binds (calls_since (setUniform_sequence (pre @ [r]) w)
                                 (setUniform_sequence rs w)) = 0)"
proof -
  from setUniform_sequence_calls [OF same] diff obtain l where
    l: "calls (setUniform_sequence rs w) = calls w @ l"
       "program_binds l = (if \<exists>r\<in>set rs. request_resolves w r then 1 else 0)"
    by auto
  have a: "program_binds (calls_since w (setUniform_sequence rs w)) =
           (if \<exists>r\<in>set rs. request_resolves w r then 1 else 0)"
    using l by (simp add: calls_since_append)
  have b: "setUniform_sequence pre w = w
         \<and> calls_since w (setUniform_sequence (pre @ [r]) w) =
             [GlUseProgram pid, request_write w r]
         \<and> m_last_program_id (renderer (setUniform_sequence (pre @ [r]) w)) = pid
         \<and> program_binds (calls_since (setUniform_sequence (pre @ [r]) w)
                            (setUniform_sequence rs w)) = 0"
    if split: "rs = pre @ r # post" and pre: "\<forall>q\<in>set pre. \<not> request_resolves w q"
      and r: "request_resolves w r" for pre r post
  proof -
    have w0: "setUniform_sequence pre w = w"
      using pre by (rule setUniform_sequence_unresolved)
    have pr: "request_program w r = pid" using same split by simp
    let ?w1 = "setUniform_request r w"
    have w1: "setUniform_sequence (pre @ [r]) w = ?w1"
      by (simp add: setUniform_sequence_append w0)
    from setUniform_request_resolved [OF r] pr diff
    have c1: "calls ?w1 = calls w @ [GlUseProgram pid, request_write w r]"
      and p1: "m_last_program_id (renderer ?w1) = pid" by simp_all
    have fr: "shader_at ?w1 = shader_at w" by simp
    have same1: "\<forall>q\<in>set post. request_program ?w1 q = pid"
      using same split by (simp add: request_program_frame [OF fr])
    from setUniform_sequence_calls [OF same1] p1 obtain l1 where
      l1: "calls (setUniform_sequence post ?w1) = calls ?w1 @ l1" "program_binds l1 = 0"
      by auto
    have rest: "setUniform_sequence rs w = setUniform_sequence post ?w1"
      by (simp add: split setUniform_sequence_append w0)
    show ?thesis
      using w0 w1 c1 p1 l1 rest by (simp add: calls_since_append)
  qed
  from a b show ?thesis by auto
qed

theorem setUniform_sequence_binds_once_witness:
  "list_all (\<lambda>r. request_program example_world r = 5) example_requests
 \<and> m_last_program_id (renderer example_world) \<noteq> 5
 \<and> (\<exists>r\<in>set example_requests. request_resolves example_world r)
 \<and> program_binds (calls_since example_world
                    (setUniform_sequence example_requests example_world)) = 1
 \<and> example_requests =
      [(0, ''u_missing'', 0, UInt 1)] @ (0, ''u_color'', 0, UInt 1)
      # [(0, ''u_color'', 0, UFloat 2), (0, ''u_color'', 0, UInt 4)]
 \<and> list_all (\<lambda>q. \<not> request_resolves example_world q) [(0, ''u_missing'', 0, UInt 1)]
 \<and> request_resolves example_world (0, ''u_color'', 0, UInt 1)
 \<and> calls_since example_world
      (setUniform_sequence ([(0, ''u_missing'', 0, UInt 1)] @ [(0, ''u_color'', 0, UInt 1)])
         example_world) =
      [GlUseProgram 5, GlUniform1i 3 1]
 \<and> program_binds
      (calls_since
         (setUniform_sequence ([(0, ''u_missing'', 0, UInt 1)] @ [(0, ''u_color'', 0, UInt 1)])
            example_world)
         (setUniform_sequence example_requests example_world)) = 0"
proof -
  have a: "\<forall>r\<in>set example_requests. request_program example_world r = 5"
    by (simp add: example_requests_def example_defs)
  have b: "m_last_program_id (renderer example_world) \<noteq> 5"
    by (simp add: example_defs)
  have c: "\<exists>r\<in>set example_requests. request_resolves example_world r"
    by (simp add: example_requests_def example_defs)
  let ?pre = "[(0, ''u_missing'', 0, UInt 1)] :: real uniform_request list"
  let ?r = "(0, ''u_color'', 0, UInt 1) :: real uniform_request"
  let ?post = "[(0, ''u_color'', 0, UFloat 2), (0, ''u_color'', 0, UInt 4)] :: real uniform_request list"
  have s: "example_requests = ?pre @ ?r # ?post"
    by (simp add: example_requests_def)
  have u: "\<forall>q\<in>set ?pre. \<not> request_resolves example_world q"
    and v: "request_resolves example_world ?r"
    and wr: "request_write example_world ?r = GlUniform1i 3 1"
    by (simp_all add: example_defs)
  note t = setUniform_sequence_binds_once [OF a b]
  from t c have n: "program_binds (calls_since example_world
                      (setUniform_sequence example_requests example_world)) = 1"
    by simp
  from t s u v have m: "calls_since example_world (setUniform_sequence (?pre @ [?r]) example_world) =
        [GlUseProgram 5, request_write example_world ?r]"
    and z: "program_binds (calls_since (setUniform_sequence (?pre @ [?r]) example_world)
                             (setUniform_sequence example_requests example_world)) = 0"
    by blast+
  show ?thesis
    using a b c n s u v m z unfolding wr by (simp add: list_all_iff)
qed

section \<open>The cases of a uniform write\<close>

text \<open>
  For \<open>setUniform\<close> and \<open>setFixedCachedUniform\<close> (any overload): with a negative
  location the call returns the world unchanged; with a non-negative location and a
  program id different from the cached one, the program is bound and the cache updated
  first, and the write is issued in the world where the driver's current program and the
  cache are the shader's program; with a non-negative location and the cached id equal,
  the write is the only call, whatever program the driver has bound.
\<close>

lemma uniform_write_cases:
  "(getUniformLocation (shader_at w sh) name h < 0 \<longrightarrow> setUniform sh name h v w = w)
 \<and> (0 \<le> getUniformLocation (shader_at w sh) name h
      \<and> m_last_program_id (renderer w) \<noteq> getProgramId (shader_at w sh) \<longrightarrow>
      (\<exists>w1. w1 = set_last_program_id (getProgramId (shader_at w sh))
                   (driver (GlUseProgram (getProgramId (shader_at w sh))) w)
          \<and> setUniform sh name h v w =
              driver (uniform_write (getUniformLocation (shader_at w sh) name h) v) w1
          \<and> gl_current_program (gl w1) = getProgramId (shader_at w sh)
          \<and> m_last_program_id (renderer w1) = getProgramId (shader_at w sh)
          \<and> calls_since w (setUniform sh name h v w) =
              [GlUseProgram (getProgramId (shader_at w sh)),
               uniform_write (getUniformLocation (shader_at w sh) name h) v]))
 \<and> (0 \<le> getUniformLocation (shader_at w sh) name h
      \<and> m_last_program_id (renderer w) = getProgramId (shader_at w sh) \<longrightarrow>
      setUniform sh name h v w =
        driver (uniform_write (getUniformLocation (shader_at w sh) name h) v) w)
 \<and> (getFixedCachedUniformLocation (shader_at w sh) fixed < 0 \<longrightarrow>
      setFixedCachedUniform sh fixed fv w = w)
 \<and> (0 \<le> getFixedCachedUniformLocation (shader_at w sh) fixed
      \<and> m_last_program_id (renderer w) \<noteq> getProgramId (shader_at w sh) \<longrightarrow>
      (\<exists>w1. w1 = set_last_program_id (getProgramId (shader_at w sh))
                   (driver (GlUseProgram (getProgramId (shader_at w sh))) w)
          \<and> setFixedCachedUniform sh fixed fv w =
              driver (fixed_uniform_write
                        (getFixedCachedUniformLocation (shader_at w sh) fixed) fv) w1
          \<and> gl_current_program (gl w1) = getProgramId (shader_at w sh)
          \<and> m_last_program_id (renderer w1) = getProgramId (shader_at w sh)
          \<and> calls_since w (setFixedCachedUniform sh fixed fv w) =
              [GlUseProgram (getProgramId (shader_at w sh)),
               fixed_uniform_write (getFixedCachedUniformLocation (shader_at w sh) fixed) fv]))
 \<and> (0 \<le> getFixedCachedUniformLocation (shader_at w sh) fixed
      \<and> m_last_program_id (renderer w) = getProgramId (shader_at w sh) \<longrightarrow>
      setFixedCachedUniform sh fixed fv w =
        driver (fixed_uniform_write
                  (getFixedCachedUniformLocation (shader_at w sh) fixed) fv) w)"
  by (simp add: setUniform_def setFixedCachedUniform_def Let_def useProgramIfChanged_def
        calls_since_def)

section \<open>C3: the geometry binder\<close>

lemma bindBuffers_simps [simp]:
  "calls (bindBuffers g w) =
     calls w @ [Geometry_bindBuffers g,
                GlBindBuffer GL_ARRAY_BUFFER (geometry_vertex_buffer (geometry_at w g)),
                GlBindBuffer GL_ELEMENT_ARRAY_BUFFER (geometry_index_buffer (geometry_at w g))]"
  "renderer (bindBuffers g w) = renderer w"
  "shader_at (bindBuffers g w) = shader_at w"
  "material_at (bindBuffers g w) = material_at w"
  "mesh_at (bindBuffers g w) = mesh_at w"
  "geometry_at (bindBuffers g w) = geometry_at w"
  "device_at (bindBuffers g w) = device_at w"
  "gl (bindBuffers g w) =
     (gl w)\<lparr>gl_array_buffer := geometry_vertex_buffer (geometry_at w g),
            gl_element_array_buffer := geometry_index_buffer (geometry_at w g)\<rparr>"
  by (simp_all add: bindBuffers_def)

lemma bindGeometry_same:
  "m_last_bind_geometry_mesh (renderer w) = Some mesh \<Longrightarrow> bindGeometry geometry mesh w = w"
  by (simp add: bindGeometry_def)

lemma bindGeometry_frame [simp]:
  "shader_at (bindGeometry g m w) = shader_at w"
  "material_at (bindGeometry g m w) = material_at w"
  "mesh_at (bindGeometry g m w) = mesh_at w"
  "geometry_at (bindGeometry g m w) = geometry_at w"
  "device_at (bindGeometry g m w) = device_at w"
  by (simp_all add: bindGeometry_def Let_def split: option.splits)

lemma bindGeometry_other:
  assumes "m_last_bind_geometry_mesh (renderer w) \<noteq> Some mesh"
  shows "calls (bindGeometry geometry mesh w) =
           calls w
           @ (case m_last_bind_geometry_mesh (renderer w) of
                None \<Rightarrow> []
              | Some previous \<Rightarrow> [VertexDef_end previous (mesh_shader w previous)])
           @ [Geometry_bindBuffers geometry,
              GlBindBuffer GL_ARRAY_BUFFER (geometry_vertex_buffer (geometry_at w geometry)),
              GlBindBuffer GL_ELEMENT_ARRAY_BUFFER (geometry_index_buffer (geometry_at w geometry)),
              VertexDef_begin mesh (mesh_shader w mesh) (mesh_attribute_array_offset (mesh_at w mesh))]"
    and "renderer (bindGeometry geometry mesh w) =
           (renderer w)\<lparr>m_last_bind_geometry := Some geometry,
                        m_last_bind_geometry_mesh := Some mesh\<rparr>"
    and "gl (bindGeometry geometry mesh w) =
           (gl w)\<lparr>gl_array_buffer := geometry_vertex_buffer (geometry_at w geometry),
                  gl_element_array_buffer := geometry_index_buffer (geometry_at w geometry)\<rparr>"
  using assms
  by (simp_all add: bindGeometry_def Let_def mesh_shader_def split: option.splits)

text \<open>
  Claim C3. For every call \<open>bindGeometry(renderer, geometry, mesh)\<close>: if the mesh is the
  last-bound mesh, the world is unchanged (no call, no change of state). Otherwise the calls
  made are, in this order: the teardown of the previous mesh's vertex layout against the
  previous mesh's own shader (only if a previous mesh was bound), the binding of the new
  geometry's buffers, and the setup of the new mesh's layout against its own shader at its
  attribute-array offset; the memo becomes the new geometry and mesh and nothing else of
  the renderer changes; binding the same mesh again then changes nothing.
\<close>

theorem bindGeometry_memo_and_order:
  "(m_last_bind_geometry_mesh (renderer w) = Some mesh \<longrightarrow> bindGeometry geometry mesh w = w)
 \<and> (m_last_bind_geometry_mesh (renderer w) \<noteq> Some mesh \<longrightarrow>
      calls_since w (bindGeometry geometry mesh w) =
        (case m_last_bind_geometry_mesh (renderer w) of
           None \<Rightarrow> []
         | Some previous \<Rightarrow> [VertexDef_end previous (mesh_shader w previous)])
        @ [Geometry_bindBuffers geometry,
           GlBindBuffer GL_ARRAY_BUFFER (geometry_vertex_buffer (geometry_at w geometry)),
           GlBindBuffer GL_ELEMENT_ARRAY_BUFFER (geometry_index_buffer (geometry_at w geometry)),
           VertexDef_begin mesh (mesh_shader w mesh)
             (mesh_attribute_array_offset (mesh_at w mesh))]
      \<and> renderer (bindGeometry geometry mesh w) =
          (renderer w)\<lparr>m_last_bind_geometry := Some geometry,
                       m_last_bind_geometry_mesh := Some mesh\<rparr>
      \<and> bindGeometry geometry mesh (bindGeometry geometry mesh w) =
          bindGeometry geometry mesh w)"
proof (intro conjI impI)
  assume "m_last_bind_geometry_mesh (renderer w) = Some mesh"
  then show "bindGeometry geometry mesh w = w" by (rule bindGeometry_same)
next
  assume other: "m_last_bind_geometry_mesh (renderer w) \<noteq> Some mesh"
  from bindGeometry_other(1) [OF other]
  show "calls_since w (bindGeometry geometry mesh w) =
        (case m_last_bind_geometry_mesh (renderer w) of
           None \<Rightarrow> []
         | Some previous \<Rightarrow> [VertexDef_end previous (mesh_shader w previous)])
        @ [Geometry_bindBuffers geometry,
           GlBindBuffer GL_ARRAY_BUFFER (geometry_vertex_buffer (geometry_at w geometry)),
           GlBindBuffer GL_ELEMENT_ARRAY_BUFFER (geometry_index_buffer (geometry_at w geometry)),
           VertexDef_begin mesh (mesh_shader w mesh)
             (mesh_attribute_array_offset (mesh_at w mesh))]"
    by (simp add: calls_since_def)
  show r: "renderer (bindGeometry geometry mesh w) =
          (renderer w)\<lparr>m_last_bind_geometry := Some geometry,
                       m_last_bind_geometry_mesh := Some mesh\<rparr>"
    by (rule bindGeometry_other(2) [OF other])
  show "bindGeometry geometry mesh (bindGeometry geometry mesh w) = bindGeometry geometry mesh w"
    by (rule bindGeometry_same) (simp add: r)
qed

theorem bindGeometry_memo_and_order_witness:
  "m_last_bind_geometry_mesh (renderer example_world) \<noteq> Some 2
 \<and> calls_since example_world (bindGeometry 4 2 example_world) =
      [Geometry_bindBuffers 4, GlBindBuffer GL_ARRAY_BUFFER 1,
       GlBindBuffer GL_ELEMENT_ARRAY_BUFFER 2, VertexDef_begin 2 2 64]
 \<and> m_last_bind_geometry_mesh (renderer (bindGeometry 4 2 example_world)) = Some 2
 \<and> bindGeometry 4 2 (bindGeometry 4 2 example_world) = bindGeometry 4 2 example_world
 \<and> m_last_bind_geometry_mesh (renderer (bindGeometry 4 2 example_world)) \<noteq> Some 3
 \<and> calls_since (bindGeometry 4 2 example_world)
      (bindGeometry 4 3 (bindGeometry 4 2 example_world)) =
      [VertexDef_end 2 2, Geometry_bindBuffers 4, GlBindBuffer GL_ARRAY_BUFFER 1,
       GlBindBuffer GL_ELEMENT_ARRAY_BUFFER 2, VertexDef_begin 3 3 96]"
proof -
  let ?w1 = "bindGeometry 4 2 example_world"
  have a: "m_last_bind_geometry_mesh (renderer example_world) \<noteq> Some 2"
    by (simp add: example_defs)
  note t1 = bindGeometry_memo_and_order [of example_world 2 4]
  from t1 a have r1: "renderer ?w1 =
      (renderer example_world)\<lparr>m_last_bind_geometry := Some 4,
                                m_last_bind_geometry_mesh := Some 2\<rparr>"
    and c1: "calls_since example_world ?w1 =
        (case m_last_bind_geometry_mesh (renderer example_world) of
           None \<Rightarrow> []
         | Some previous \<Rightarrow> [VertexDef_end previous (mesh_shader example_world previous)])
        @ [Geometry_bindBuffers 4,
           GlBindBuffer GL_ARRAY_BUFFER (geometry_vertex_buffer (geometry_at example_world 4)),
           GlBindBuffer GL_ELEMENT_ARRAY_BUFFER (geometry_index_buffer (geometry_at example_world 4)),
           VertexDef_begin 2 (mesh_shader example_world 2)
             (mesh_attribute_array_offset (mesh_at example_world 2))]"
    by blast+
  have b: "m_last_bind_geometry_mesh (renderer ?w1) \<noteq> Some 3"
    by (simp add: r1)
  have same: "m_last_bind_geometry_mesh (renderer ?w1) = Some 2"
    by (simp add: r1)
  from bindGeometry_memo_and_order [of ?w1 2 4] same
  have i1: "bindGeometry 4 2 ?w1 = ?w1"
    by blast
  note t2 = bindGeometry_memo_and_order [of ?w1 3 4]
  from t2 b have c2: "calls_since ?w1 (bindGeometry 4 3 ?w1) =
        (case m_last_bind_geometry_mesh (renderer ?w1) of
           None \<Rightarrow> []
         | Some previous \<Rightarrow> [VertexDef_end previous (mesh_shader ?w1 previous)])
        @ [Geometry_bindBuffers 4,
           GlBindBuffer GL_ARRAY_BUFFER (geometry_vertex_buffer (geometry_at ?w1 4)),
           GlBindBuffer GL_ELEMENT_ARRAY_BUFFER (geometry_index_buffer (geometry_at ?w1 4)),
           VertexDef_begin 3 (mesh_shader ?w1 3)
             (mesh_attribute_array_offset (mesh_at ?w1 3))]"
    by blast
  have m0: "m_last_bind_geometry_mesh (renderer example_world) = None"
    by (simp add: example_defs)
  have ev: "mesh_shader example_world 2 = 2" "mesh_shader example_world 3 = 3"
    "geometry_vertex_buffer (geometry_at example_world 4) = 1"
    "geometry_index_buffer (geometry_at example_world 4) = 2"
    "mesh_attribute_array_offset (mesh_at example_world 2) = 64"
    "mesh_attribute_array_offset (mesh_at example_world 3) = 96"
    by (simp_all add: example_world_def mesh_shader_def)
  show ?thesis
    using a b i1 c1 c2 ev by (simp add: r1 m0 mesh_shader_def)
qed

section \<open>C5: cleanup is idempotent\<close>

declare cleanup_textures.simps [simp del]

lemma texture_unbinds_step:
  "i < 16 \<Longrightarrow>
   texture_unbinds i = [GlActiveTexture i, GlBindTexture2D 0] @ texture_unbinds (i + 1)"
  by (simp add: texture_unbinds_def upt_conv_Cons)

lemma texture_unbinds_done: "\<not> i < 16 \<Longrightarrow> texture_unbinds i = []"
  by (simp add: texture_unbinds_def)

lemma cleanup_textures_eq:
  "cleanup_textures i w =
     (if i < 16
      then w\<lparr>gl := (gl w)\<lparr>gl_active_texture := 15,
                          gl_texture_2d := (\<lambda>unit. if i \<le> unit \<and> unit < 16 then 0
                                                    else gl_texture_2d (gl w) unit)\<rparr>,
             calls := calls w @ texture_unbinds i\<rparr>
      else w)"
proof (induction i w rule: cleanup_textures.induct)
  case (1 i w)
  show ?case
  proof (cases "i < 16")
    case False
    then show ?thesis by (subst cleanup_textures.simps) simp
  next
    case True
    let ?w1 = "driver (GlBindTexture2D 0) (driver (GlActiveTexture i) w)"
    have step: "cleanup_textures i w = cleanup_textures (i + 1) ?w1"
      using True by (subst cleanup_textures.simps) simp
    show ?thesis
    proof (cases "i + 1 < 16")
      case False
      with True have i: "i = 15" by simp
      have "cleanup_textures (i + 1) ?w1 = ?w1"
        using "1.IH" [OF True] False by simp
      then show ?thesis
        using True step
        by (simp add: driver_def i texture_unbinds_step texture_unbinds_done fun_eq_iff)
    next
      case next_lt: True
      have "cleanup_textures (i + 1) ?w1 =
          ?w1\<lparr>gl := (gl ?w1)\<lparr>gl_active_texture := 15,
                   gl_texture_2d := (\<lambda>unit. if i + 1 \<le> unit \<and> unit < 16 then 0
                                             else gl_texture_2d (gl ?w1) unit)\<rparr>,
               calls := calls ?w1 @ texture_unbinds (i + 1)\<rparr>"
        using "1.IH" [OF True] next_lt by simp
      then show ?thesis
        using True step
        by (simp add: driver_def texture_unbinds_step fun_eq_iff)
    qed
  qed
qed

lemma cleanup_eq:
  "cleanup w =
     (if m_last_bind_geometry (renderer w) \<noteq> None \<and> m_last_bind_geometry_mesh (renderer w) = None
      then Inl NullPointerDereference
      else Inr (cleaned_up w))"
  by (auto simp: cleanup_def and_then_def Let_def cleanup_textures_eq cleaned_up_def
        cleaned_gl_def cleanup_teardown_def cleanup_driver_calls_def driver_def fun_eq_iff
        split: option.splits)

lemma cleaned_gl_idem: "cleaned_gl (cleaned_gl g) = cleaned_gl g"
  by (simp add: cleaned_gl_def fun_eq_iff)

lemma cleaned_up_simps [simp]:
  "renderer (cleaned_up w) =
     (renderer w)\<lparr>m_last_bind_geometry := None, m_last_bind_geometry_mesh := None\<rparr>"
  "gl (cleaned_up w) = cleaned_gl (gl w)"
  "calls (cleaned_up w) = calls w @ cleanup_teardown w @ cleanup_driver_calls"
  "shader_at (cleaned_up w) = shader_at w"
  "material_at (cleaned_up w) = material_at w"
  "mesh_at (cleaned_up w) = mesh_at w"
  "geometry_at (cleaned_up w) = geometry_at w"
  "device_at (cleaned_up w) = device_at w"
  by (simp_all add: cleaned_up_def)

lemma cleanup_teardown_cleaned_up [simp]: "cleanup_teardown (cleaned_up w) = []"
  by (simp add: cleanup_teardown_def)

lemma cleanup_cleaned_up: "cleanup (cleaned_up w) = Inr (cleaned_up (cleaned_up w))"
  by (simp add: cleanup_eq)

lemma observable_cleaned_up_twice:
  "observable (cleaned_up (cleaned_up w)) = observable (cleaned_up w)"
  by (simp add: observable_def cleaned_up_def cleaned_gl_idem)

lemma no_teardown_in_driver_calls:
  "filter is_vertex_def_end (cleanup_driver_calls :: 'f call list) = []"
  by (simp add: cleanup_driver_calls_def texture_unbinds_def filter_concat)

text \<open>
  Claim C5. For every starting world, \<open>cleanup\<close> called twice in a row gives the same
  result, up to the list of calls, as \<open>cleanup\<close> called once. When the first call returns,
  it leaves program 0 bound, vertex and index buffer 0 bound, texture 0 bound on each of
  the 16 units, texture unit 0 active and both memo pointers null; the second call
  returns too, changes no state, and makes only the fixed driver calls: no teardown of a
  vertex layout.
\<close>

theorem cleanup_idempotent:
  "map_sum id observable (and_then (cleanup w) cleanup) = map_sum id observable (cleanup w)
 \<and> (\<forall>w1. cleanup w = Inr w1 \<longrightarrow>
      (\<exists>w2. cleanup w1 = Inr w2 \<and> observable w2 = observable w1
          \<and> calls_since w1 w2 = cleanup_driver_calls
          \<and> filter is_vertex_def_end (calls_since w1 w2) = [])
      \<and> gl_current_program (gl w1) = 0
      \<and> gl_array_buffer (gl w1) = 0
      \<and> gl_element_array_buffer (gl w1) = 0
      \<and> (\<forall>unit < 16. gl_texture_2d (gl w1) unit = 0)
      \<and> gl_active_texture (gl w1) = 0
      \<and> m_last_bind_geometry (renderer w1) = None
      \<and> m_last_bind_geometry_mesh (renderer w1) = None)"
proof (intro conjI allI impI)
  show "map_sum id observable (and_then (cleanup w) cleanup) = map_sum id observable (cleanup w)"
    by (simp add: cleanup_eq [of w] and_then_def cleanup_cleaned_up observable_cleaned_up_twice)
next
  fix w1 assume ok: "cleanup w = Inr w1"
  then have w1: "w1 = cleaned_up w"
    by (simp add: cleanup_eq split: if_splits)
  show "\<exists>w2. cleanup w1 = Inr w2 \<and> observable w2 = observable w1
          \<and> calls_since w1 w2 = cleanup_driver_calls
          \<and> filter is_vertex_def_end (calls_since w1 w2) = []"
    unfolding w1
    by (rule exI [of _ "cleaned_up (cleaned_up w)"])
       (simp add: cleanup_cleaned_up observable_cleaned_up_twice calls_since_def
          no_teardown_in_driver_calls)
  show "gl_current_program (gl w1) = 0" "gl_array_buffer (gl w1) = 0"
    "gl_element_array_buffer (gl w1) = 0" "gl_active_texture (gl w1) = 0"
    "m_last_bind_geometry (renderer w1) = None" "m_last_bind_geometry_mesh (renderer w1) = None"
    by (simp_all add: w1 cleaned_gl_def)
  fix unit :: nat assume "unit < 16"
  then show "gl_texture_2d (gl w1) unit = 0"
    by (simp add: w1 cleaned_gl_def)
qed

theorem cleanup_idempotent_witness:
  "cleanup (bindGeometry 4 2 example_world) = Inr (cleaned_up (bindGeometry 4 2 example_world))
 \<and> filter is_vertex_def_end
      (calls_since (bindGeometry 4 2 example_world) (cleaned_up (bindGeometry 4 2 example_world))) =
      [VertexDef_end 2 2]
 \<and> (\<exists>w2. cleanup (cleaned_up (bindGeometry 4 2 example_world)) = Inr w2
        \<and> observable w2 = observable (cleaned_up (bindGeometry 4 2 example_world))
        \<and> filter is_vertex_def_end
             (calls_since (cleaned_up (bindGeometry 4 2 example_world)) w2) = [])
 \<and> gl_current_program (gl (cleaned_up (bindGeometry 4 2 example_world))) = 0
 \<and> gl_array_buffer (gl (cleaned_up (bindGeometry 4 2 example_world))) = 0
 \<and> gl_texture_2d (gl (cleaned_up (bindGeometry 4 2 example_world))) 15 = 0"
proof -
  let ?w0 = "bindGeometry 4 2 example_world"
  have other: "m_last_bind_geometry_mesh (renderer example_world) \<noteq> Some 2"
    by (simp add: example_defs)
  have r0: "renderer ?w0 = (renderer example_world)\<lparr>m_last_bind_geometry := Some 4,
                                                     m_last_bind_geometry_mesh := Some 2\<rparr>"
    by (rule bindGeometry_other(2) [OF other])
  have ok: "cleanup ?w0 = Inr (cleaned_up ?w0)"
    by (simp add: cleanup_eq r0)
  have sh: "mesh_shader ?w0 2 = 2"
    by (simp add: mesh_shader_def) (simp add: example_world_def)
  have td: "filter is_vertex_def_end (calls_since ?w0 (cleaned_up ?w0)) = [VertexDef_end 2 2]"
    by (simp add: calls_since_def cleanup_teardown_def r0 sh no_teardown_in_driver_calls)
  have sixteen: "(15::nat) < 16" by simp
  from cleanup_idempotent [of ?w0] ok sixteen
  have "(\<exists>w2. cleanup (cleaned_up ?w0) = Inr w2
          \<and> observable w2 = observable (cleaned_up ?w0)
          \<and> filter is_vertex_def_end (calls_since (cleaned_up ?w0) w2) = [])
      \<and> gl_current_program (gl (cleaned_up ?w0)) = 0
      \<and> gl_array_buffer (gl (cleaned_up ?w0)) = 0
      \<and> gl_texture_2d (gl (cleaned_up ?w0)) 15 = 0"
    by blast
  with ok td show ?thesis by simp
qed

section \<open>Rendering a model: the loop and the calls it shows\<close>

lemma is_material_or_draw_simps [simp]:
  "is_material_or_draw (Material_apply m) = True"
  "is_material_or_draw (GlDrawElements n off) = True"
  "is_material_or_draw (GlUseProgram p) = False"
  "is_material_or_draw (Shader_setCurrentCombination sh c ph) = False"
  "is_material_or_draw (Geometry_bindBuffers g) = False"
  "is_material_or_draw (GlBindBuffer t b) = False"
  "is_material_or_draw (VertexDef_begin mesh sh off) = False"
  "is_material_or_draw (VertexDef_end mesh sh) = False"
  "is_material_or_draw (fixed_uniform_write loc fv) = False"
  "is_material_or_draw (uniform_write loc v) = False"
  by (simp_all add: is_material_or_draw_def, (cases fv; simp), (cases v; simp))

lemma useProgramIfChanged_memo [simp]:
  "m_last_bind_geometry (renderer (useProgramIfChanged sh w)) = m_last_bind_geometry (renderer w)"
  "m_last_bind_geometry_mesh (renderer (useProgramIfChanged sh w)) =
     m_last_bind_geometry_mesh (renderer w)"
  by (simp_all add: useProgramIfChanged_def)

lemma setUniform_memo [simp]:
  "m_last_bind_geometry (renderer (setUniform sh name h v w)) = m_last_bind_geometry (renderer w)"
  "m_last_bind_geometry_mesh (renderer (setUniform sh name h v w)) =
     m_last_bind_geometry_mesh (renderer w)"
  by (simp_all add: setUniform_def Let_def)

lemma setFixedCachedUniform_memo [simp]:
  "m_last_bind_geometry (renderer (setFixedCachedUniform sh n v w)) =
     m_last_bind_geometry (renderer w)"
  "m_last_bind_geometry_mesh (renderer (setFixedCachedUniform sh n v w)) =
     m_last_bind_geometry_mesh (renderer w)"
  by (simp_all add: setFixedCachedUniform_def Let_def)

lemma setFixedCachedUniform_quiet:
  "\<exists>l. calls (setFixedCachedUniform sh n v w) = calls w @ l
       \<and> filter is_material_or_draw l = []"
  by (simp add: setFixedCachedUniform_def Let_def useProgramIfChanged_def)

lemma applyShader_frame [simp]:
  "material_at (applyShader sh c w) = material_at w"
  "mesh_at (applyShader sh c w) = mesh_at w"
  "geometry_at (applyShader sh c w) = geometry_at w"
  "device_at (applyShader sh c w) = device_at w"
  "m_last_bind_geometry (renderer (applyShader sh c w)) = m_last_bind_geometry (renderer w)"
  "m_last_bind_geometry_mesh (renderer (applyShader sh c w)) =
     m_last_bind_geometry_mesh (renderer w)"
  by (simp_all add: applyShader_def Let_def)

lemma applyShader_quiet:
  "\<exists>l. calls (applyShader sh c w) = calls w @ l \<and> filter is_material_or_draw l = []"
proof -
  let ?ph = "m_current_pass_hash (renderer w)"
  let ?w1 = "(driver (Shader_setCurrentCombination sh c ?ph) w)
               \<lparr>shader_at := (shader_at w)(sh := setCurrentCombination (shader_at w sh) c ?ph)\<rparr>"
  let ?ident = "getProgramId (shader_at ?w1 sh)"
  let ?w3 = "driver (GlUseProgram ?ident) (set_last_program_id ?ident ?w1)"
  let ?w4 = "setFixedCachedUniform sh VIEW_MATRIX (FMatrix (m_view_matrix (renderer ?w3))) ?w3"
  have eq: "applyShader sh c w =
      setFixedCachedUniform sh PROJECTION_MATRIX (FMatrix (m_projection_matrix (renderer ?w4))) ?w4"
    by (simp add: applyShader_def Let_def)
  have c3: "calls ?w3 = calls w @ [Shader_setCurrentCombination sh c ?ph, GlUseProgram ?ident]"
    by simp
  obtain l4 where l4: "calls ?w4 = calls ?w3 @ l4" "filter is_material_or_draw l4 = []"
    using setFixedCachedUniform_quiet by blast
  obtain l5 where l5: "calls (applyShader sh c w) = calls ?w4 @ l5"
    "filter is_material_or_draw l5 = []"
    unfolding eq using setFixedCachedUniform_quiet by blast
  show ?thesis
    using c3 l4 l5 by simp
qed

lemma applyMaterial_frame [simp]:
  "material_at (applyMaterial m w) = material_at w"
  "mesh_at (applyMaterial m w) = mesh_at w"
  "geometry_at (applyMaterial m w) = geometry_at w"
  "device_at (applyMaterial m w) = device_at w"
  "m_last_bind_geometry (renderer (applyMaterial m w)) = m_last_bind_geometry (renderer w)"
  "m_last_bind_geometry_mesh (renderer (applyMaterial m w)) =
     m_last_bind_geometry_mesh (renderer w)"
  by (simp_all add: applyMaterial_def)

lemma applyMaterial_events:
  "\<exists>l. calls (applyMaterial m w) = calls w @ l
       \<and> filter is_material_or_draw l = [Material_apply m]"
proof -
  obtain l where "calls (applyMaterial m w) = calls (driver (Material_apply m) w) @ l"
    "filter is_material_or_draw l = []"
    unfolding applyMaterial_def using applyShader_quiet by blast
  then show ?thesis by simp
qed

lemma bindGeometry_quiet:
  "\<exists>l. calls (bindGeometry g m w) = calls w @ l \<and> filter is_material_or_draw l = []"
proof (cases "m_last_bind_geometry_mesh (renderer w) = Some m")
  case True
  then show ?thesis by (simp add: bindGeometry_same)
next
  case False
  show ?thesis
    by (simp add: bindGeometry_other(1) [OF False] split: option.splits)
qed

lemma renderGeometry_simps [simp]:
  "calls (renderGeometry off n w) = calls w @ [GlDrawElements n off]"
  "renderer (renderGeometry off n w) = renderer w"
  "shader_at (renderGeometry off n w) = shader_at w"
  "material_at (renderGeometry off n w) = material_at w"
  "mesh_at (renderGeometry off n w) = mesh_at w"
  "geometry_at (renderGeometry off n w) = geometry_at w"
  "device_at (renderGeometry off n w) = device_at w"
  by (simp_all add: renderGeometry_def)

lemma renderModel_mesh_steps:
  "renderModel_mesh model transform mesh w =
     renderGeometry (mesh_indices_offset (mesh_at w mesh)) (mesh_index_count (mesh_at w mesh))
       (bindGeometry (model_geometry model) mesh
          (setFixedCachedUniform (mesh_shader w mesh) WORLD_MATRIX (FMatrix transform)
             (applyMaterial (mesh_material (mesh_at w mesh)) w)))"
  by (simp add: renderModel_mesh_def Let_def mesh_shader_def)

lemma renderModel_mesh_frame [simp]:
  "material_at (renderModel_mesh model t mesh w) = material_at w"
  "mesh_at (renderModel_mesh model t mesh w) = mesh_at w"
  "geometry_at (renderModel_mesh model t mesh w) = geometry_at w"
  "device_at (renderModel_mesh model t mesh w) = device_at w"
  by (simp_all add: renderModel_mesh_steps)

lemma renderModel_mesh_events:
  "\<exists>l. calls (renderModel_mesh model t mesh w) = calls w @ l
       \<and> filter is_material_or_draw l = mesh_events w mesh"
proof -
  let ?w1 = "applyMaterial (mesh_material (mesh_at w mesh)) w"
  let ?w2 = "setFixedCachedUniform (mesh_shader w mesh) WORLD_MATRIX (FMatrix t) ?w1"
  let ?w3 = "bindGeometry (model_geometry model) mesh ?w2"
  obtain l1 where l1: "calls ?w1 = calls w @ l1"
    "filter is_material_or_draw l1 = [Material_apply (mesh_material (mesh_at w mesh))]"
    using applyMaterial_events by blast
  obtain l2 where l2: "calls ?w2 = calls ?w1 @ l2" "filter is_material_or_draw l2 = []"
    using setFixedCachedUniform_quiet by blast
  obtain l3 where l3: "calls ?w3 = calls ?w2 @ l3" "filter is_material_or_draw l3 = []"
    using bindGeometry_quiet by blast
  show ?thesis
    using l1 l2 l3 by (simp add: renderModel_mesh_steps mesh_events_def)
qed

lemma fold_renderModel_mesh_frame [simp]:
  "mesh_at (fold (renderModel_mesh model t) ms w) = mesh_at w"
  by (induction ms arbitrary: w) simp_all

lemma mesh_events_frame: "mesh_at w' = mesh_at w \<Longrightarrow> mesh_events w' = mesh_events w"
  by (simp add: mesh_events_def fun_eq_iff)

lemma fold_renderModel_mesh_events:
  "\<exists>l. calls (fold (renderModel_mesh model t) ms w) = calls w @ l
       \<and> filter is_material_or_draw l = concat (map (mesh_events w) ms)"
proof (induction ms arbitrary: w)
  case Nil
  then show ?case by simp
next
  case (Cons mesh ms)
  let ?w1 = "renderModel_mesh model t mesh w"
  obtain l1 where l1: "calls ?w1 = calls w @ l1" "filter is_material_or_draw l1 = mesh_events w mesh"
    using renderModel_mesh_events by blast
  obtain l2 where l2: "calls (fold (renderModel_mesh model t) ms ?w1) = calls ?w1 @ l2"
    "filter is_material_or_draw l2 = concat (map (mesh_events ?w1) ms)"
    using Cons.IH by blast
  have "mesh_events ?w1 = mesh_events w"
    by (rule mesh_events_frame) simp
  with l1 l2 show ?case by simp
qed

declare renderModel_loop.simps [simp del]

lemma renderModel_loop_fold:
  "c = length (model_meshes model) \<Longrightarrow>
   renderModel_loop model t i c w =
     fold (renderModel_mesh model t) (drop i (model_meshes model)) w"
proof (induction model t i c w rule: renderModel_loop.induct)
  case (1 model t i c w)
  show ?case
  proof (cases "i < c")
    case False
    then show ?thesis
      using "1.prems" by (subst renderModel_loop.simps) simp
  next
    case True
    have d: "drop i (model_meshes model) =
               model_meshes model ! i # drop (i + 1) (model_meshes model)"
      using True "1.prems" by (simp add: Cons_nth_drop_Suc)
    show ?thesis
      using True "1.IH" [OF True "1.prems"]
      by (subst renderModel_loop.simps) (simp add: d)
  qed
qed

section \<open>C10: the two memo pointers are null together\<close>

lemma memo_consistent_same:
  "m_last_bind_geometry r' = m_last_bind_geometry r \<Longrightarrow>
   m_last_bind_geometry_mesh r' = m_last_bind_geometry_mesh r \<Longrightarrow>
   memo_consistent r' = memo_consistent r"
  by (simp add: memo_consistent_def)

lemma memo_consistent_ctor: "memo_consistent (RendererImpl_ctor crc32 storage)"
  by (simp add: memo_consistent_def RendererImpl_ctor_def)

lemma memo_consistent_bindGeometry:
  "memo_consistent (renderer w) \<Longrightarrow> memo_consistent (renderer (bindGeometry g m w))"
proof (cases "m_last_bind_geometry_mesh (renderer w) = Some m")
  case True
  assume "memo_consistent (renderer w)"
  with True show ?thesis by (simp add: bindGeometry_same)
next
  case False
  show ?thesis
    by (simp add: bindGeometry_other(2) [OF False] memo_consistent_def)
qed

lemma memo_consistent_renderModel_mesh:
  "memo_consistent (renderer w) \<Longrightarrow>
   memo_consistent (renderer (renderModel_mesh model t mesh w))"
proof -
  assume inv: "memo_consistent (renderer w)"
  let ?w2 = "setFixedCachedUniform (mesh_shader w mesh) WORLD_MATRIX (FMatrix t)
               (applyMaterial (mesh_material (mesh_at w mesh)) w)"
  have "memo_consistent (renderer ?w2) = memo_consistent (renderer w)"
    by (rule memo_consistent_same) simp_all
  with inv have "memo_consistent (renderer (bindGeometry (model_geometry model) mesh ?w2))"
    by (simp add: memo_consistent_bindGeometry)
  then show ?thesis
    by (simp add: renderModel_mesh_steps)
qed

lemma memo_consistent_fold_renderModel_mesh:
  "memo_consistent (renderer w) \<Longrightarrow>
   memo_consistent (renderer (fold (renderModel_mesh model t) ms w))"
  by (induction ms arbitrary: w) (simp_all add: memo_consistent_renderModel_mesh)

lemma memo_consistent_renderModel:
  "memo_consistent (renderer w) \<Longrightarrow> memo_consistent (renderer (renderModel model t w))"
  by (simp add: renderModel_def renderModel_loop_fold memo_consistent_fold_renderModel_mesh)

lemma memo_consistent_cleanup:
  "cleanup w = Inr w' \<Longrightarrow> memo_consistent (renderer w')"
  by (auto simp: cleanup_eq memo_consistent_def split: if_splits)

lemma cleanup_returns:
  "memo_consistent (renderer w) \<Longrightarrow> cleanup w = Inr (cleaned_up w)"
  by (auto simp: cleanup_eq memo_consistent_def)

lemma simple_setters_memo [simp]:
  "m_last_bind_geometry (renderer (setViewMatrix mtx w)) = m_last_bind_geometry (renderer w)"
  "m_last_bind_geometry_mesh (renderer (setViewMatrix mtx w)) =
     m_last_bind_geometry_mesh (renderer w)"
  "m_last_bind_geometry (renderer (setProjectionMatrix mtx w)) = m_last_bind_geometry (renderer w)"
  "m_last_bind_geometry_mesh (renderer (setProjectionMatrix mtx w)) =
     m_last_bind_geometry_mesh (renderer w)"
  "m_last_bind_geometry (renderer (setRenderDevice d w)) = m_last_bind_geometry (renderer w)"
  "m_last_bind_geometry_mesh (renderer (setRenderDevice d w)) =
     m_last_bind_geometry_mesh (renderer w)"
  "m_last_bind_geometry (renderer (setPass ph w)) = m_last_bind_geometry (renderer w)"
  "m_last_bind_geometry_mesh (renderer (setPass ph w)) = m_last_bind_geometry_mesh (renderer w)"
  "m_last_bind_geometry (renderer (setEditorWireframe b w)) = m_last_bind_geometry (renderer w)"
  "m_last_bind_geometry_mesh (renderer (setEditorWireframe b w)) =
     m_last_bind_geometry_mesh (renderer w)"
  "m_last_bind_geometry (renderer (enableAlphaToCoverage b w)) = m_last_bind_geometry (renderer w)"
  "m_last_bind_geometry_mesh (renderer (enableAlphaToCoverage b w)) =
     m_last_bind_geometry_mesh (renderer w)"
  "m_last_bind_geometry (renderer (enableZTest b w)) = m_last_bind_geometry (renderer w)"
  "m_last_bind_geometry_mesh (renderer (enableZTest b w)) = m_last_bind_geometry_mesh (renderer w)"
  by (simp_all add: setViewMatrix_def setProjectionMatrix_def setRenderDevice_def setPass_def
        setEditorWireframe_def enableAlphaToCoverage_def enableZTest_def)

declare find_attribute_name.simps [simp del]

lemma getAttributeNameIndex_memo [simp]:
  "m_last_bind_geometry (snd (getAttributeNameIndex name r)) = m_last_bind_geometry r"
  "m_last_bind_geometry_mesh (snd (getAttributeNameIndex name r)) = m_last_bind_geometry_mesh r"
  by (simp_all add: getAttributeNameIndex_def Let_def split: option.splits)

lemma memo_consistent_exec_call:
  assumes inv: "memo_consistent (renderer w)" and ex: "exec_call c w = Inr w'"
  shows "memo_consistent (renderer w')"
proof -
  have keep: "memo_consistent (renderer w')"
    if "m_last_bind_geometry (renderer w') = m_last_bind_geometry (renderer w)"
      and "m_last_bind_geometry_mesh (renderer w') = m_last_bind_geometry_mesh (renderer w)"
    using memo_consistent_same [OF that] inv by simp
  show ?thesis
  proof (cases c)
    case Call_cleanup
    with ex show ?thesis by (simp add: memo_consistent_cleanup)
  next
    case (Call_renderModel model t)
    with ex have "w' = renderModel model t w" by simp
    with inv show ?thesis by (simp add: memo_consistent_renderModel)
  next
    case (Call_bindGeometry g m)
    with ex have "w' = bindGeometry g m w" by simp
    with inv show ?thesis by (simp add: memo_consistent_bindGeometry)
  next
    case (Call_setUniform sh name h v)
    with ex have "w' = setUniform sh name h v w" by simp
    then show ?thesis by (intro keep) simp_all
  next
    case (Call_setFixedCachedUniform sh n v)
    with ex have "w' = setFixedCachedUniform sh n v w" by simp
    then show ?thesis by (intro keep) simp_all
  next
    case (Call_applyShader sh comb)
    with ex have "w' = applyShader sh comb w" by simp
    then show ?thesis by (intro keep) simp_all
  next
    case (Call_getAttributeNameIndex name)
    with ex have "w' = w\<lparr>renderer := snd (getAttributeNameIndex name (renderer w))\<rparr>" by simp
    then show ?thesis by (intro keep) simp_all
  next
    case (Call_setViewMatrix mtx)
    with ex have "w' = setViewMatrix mtx w" by simp
    then show ?thesis by (intro keep) simp_all
  next
    case (Call_setProjectionMatrix mtx)
    with ex have "w' = setProjectionMatrix mtx w" by simp
    then show ?thesis by (intro keep) simp_all
  next
    case (Call_setRenderDevice d)
    with ex have "w' = setRenderDevice d w" by simp
    then show ?thesis by (intro keep) simp_all
  next
    case (Call_setPass ph)
    with ex have "w' = setPass ph w" by simp
    then show ?thesis by (intro keep) simp_all
  next
    case (Call_enableAlphaToCoverage b)
    with ex have "w' = enableAlphaToCoverage b w" by simp
    then show ?thesis by (intro keep) simp_all
  next
    case (Call_enableZTest b)
    with ex have "w' = enableZTest b w" by simp
    then show ?thesis by (intro keep) simp_all
  next
    case (Call_setEditorWireframe b)
    with ex have "w' = setEditorWireframe b w" by simp
    then show ?thesis by (intro keep) simp_all
  next
    case (Call_renderGeometry off n)
    with ex have "w' = renderGeometry off n w" by simp
    then show ?thesis by (intro keep) simp_all
  qed
qed

lemma memo_consistent_exec_calls:
  "memo_consistent (renderer w) \<Longrightarrow> exec_calls cs w = Inr w' \<Longrightarrow>
   memo_consistent (renderer w')"
proof (induction cs arbitrary: w)
  case Nil
  then show ?case by simp
next
  case (Cons c cs)
  from Cons.prems(2) obtain w1 where s: "exec_call c w = Inr w1" "exec_calls cs w1 = Inr w'"
    by (auto simp: and_then_def split: sum.splits)
  from memo_consistent_exec_call [OF Cons.prems(1) s(1)] s(2) show ?case
    by (rule Cons.IH)
qed

lemma memo_consistent_render:
  "render device w = Inr w' \<Longrightarrow> memo_consistent (renderer w')"
  by (auto simp: render_def Let_def and_then_def memo_consistent_cleanup
        split: option.splits sum.splits)

lemma memo_consistent_renderGame:
  assumes "memo_consistent (renderer w)" and "renderGame w = Inr w'"
  shows "memo_consistent (renderer w')"
proof (cases "m_render_device (renderer w)")
  case None
  with assms show ?thesis by (simp add: renderGame_def)
next
  case (Some device)
  with assms(2) obtain w1 where "render device (driver (Device_beginFrame device) w) = Inr w1"
    and "w' = driver (Device_endFrame device) w1"
    by (auto simp: renderGame_def and_then_def split: option.splits sum.splits)
  then show ?thesis
    using memo_consistent_render [of device _ w1] by simp
qed

lemma memo_consistent_exec_operation:
  assumes inv: "memo_consistent (renderer w)" and ex: "exec_operation x w = Inr w'"
  shows "memo_consistent (renderer w')"
proof (cases x)
  case (Op_call c)
  with ex have "exec_call c w = Inr w'" by simp
  with inv show ?thesis by (rule memo_consistent_exec_call)
next
  case Op_renderGame
  with ex have "renderGame w = Inr w'" by simp
  with inv show ?thesis by (rule memo_consistent_renderGame)
next
  case (Op_render device)
  with ex have "render device w = Inr w'" by simp
  then show ?thesis by (rule memo_consistent_render)
qed

lemma memo_consistent_exec_operations:
  "memo_consistent (renderer w) \<Longrightarrow> exec_operations xs w = Inr w' \<Longrightarrow>
   memo_consistent (renderer w')"
proof (induction xs arbitrary: w)
  case Nil
  then show ?case by simp
next
  case (Cons x xs)
  from Cons.prems(2) obtain w1 where s: "exec_operation x w = Inr w1"
    "exec_operations xs w1 = Inr w'"
    by (auto simp: and_then_def split: sum.splits)
  from memo_consistent_exec_operation [OF Cons.prems(1) s(1)] s(2) show ?case
    by (rule Cons.IH)
qed

text \<open>
  Claim C10. The last-bound geometry pointer is non-null exactly when the last-bound mesh
  pointer is non-null: this holds after construction, is kept by every operation that
  returns, and so holds after every sequence of operations on a constructed renderer,
  where \<open>cleanup\<close> then never dereferences a null mesh pointer. With the two pointers
  consistent \<open>cleanup\<close> returns; with a geometry remembered and no mesh it faults, so the
  invariant is what its teardown relies on.
\<close>

theorem memo_pointers_null_together:
  "memo_consistent (RendererImpl_ctor crc32 storage)
 \<and> (memo_consistent (renderer w) \<and> exec_operation x w = Inr w' \<longrightarrow>
      memo_consistent (renderer w'))
 \<and> (renderer w = RendererImpl_ctor crc32 storage \<and> exec_operations xs w = Inr w'' \<longrightarrow>
      memo_consistent (renderer w'') \<and> cleanup w'' \<noteq> Inl NullPointerDereference)
 \<and> (memo_consistent (renderer w) \<longrightarrow> cleanup w = Inr (cleaned_up w))
 \<and> (\<not> memo_consistent (renderer w) \<and> m_last_bind_geometry (renderer w) \<noteq> None \<longrightarrow>
      cleanup w = Inl NullPointerDereference)"
proof (intro conjI impI)
  show "memo_consistent (RendererImpl_ctor crc32 storage)"
    by (rule memo_consistent_ctor)
next
  assume "memo_consistent (renderer w) \<and> exec_operation x w = Inr w'"
  then show "memo_consistent (renderer w')"
    using memo_consistent_exec_operation by blast
next
  assume a: "renderer w = RendererImpl_ctor crc32 storage \<and> exec_operations xs w = Inr w''"
  then have "memo_consistent (renderer w)" by (simp add: memo_consistent_ctor)
  with a show inv: "memo_consistent (renderer w'')"
    using memo_consistent_exec_operations by blast
  show "cleanup w'' \<noteq> Inl NullPointerDereference"
    by (simp add: cleanup_returns [OF inv])
next
  assume "memo_consistent (renderer w)"
  then show "cleanup w = Inr (cleaned_up w)" by (rule cleanup_returns)
next
  assume "\<not> memo_consistent (renderer w) \<and> m_last_bind_geometry (renderer w) \<noteq> None"
  then show "cleanup w = Inl NullPointerDereference"
    by (auto simp: cleanup_eq memo_consistent_def)
qed

theorem memo_pointers_null_together_witness:
  "renderer example_world = RendererImpl_ctor (\<lambda>name. of_nat (length name)) example_storage
 \<and> memo_consistent (renderer example_world)
 \<and> exec_operation (Op_call (Call_bindGeometry 4 2)) example_world =
      Inr (bindGeometry 4 2 example_world)
 \<and> memo_consistent (renderer (bindGeometry 4 2 example_world))
 \<and> m_last_bind_geometry (renderer (bindGeometry 4 2 example_world)) = Some 4
 \<and> exec_operations
      [Op_call (Call_bindGeometry 4 2),
       Op_call (Call_renderModel (example_model True) (example_matrix))]
      example_world =
      Inr (renderModel (example_model True) (example_matrix)
             (bindGeometry 4 2 example_world))
 \<and> memo_consistent
      (renderer (renderModel (example_model True) (example_matrix)
                   (bindGeometry 4 2 example_world)))
 \<and> cleanup (renderModel (example_model True) (example_matrix)
               (bindGeometry 4 2 example_world)) \<noteq> Inl NullPointerDereference
 \<and> cleanup (bindGeometry 4 2 example_world) = Inr (cleaned_up (bindGeometry 4 2 example_world))
 \<and> \<not> memo_consistent (renderer (example_world\<lparr>renderer := example_storage\<rparr>))
 \<and> m_last_bind_geometry (renderer (example_world\<lparr>renderer := example_storage\<rparr>)) \<noteq> None
 \<and> cleanup (example_world\<lparr>renderer := example_storage\<rparr>) = Inl NullPointerDereference"
proof -
  let ?crc = "\<lambda>name :: string. (of_nat (length name) :: uint32_t)"
  let ?t = "example_matrix"
  let ?w1 = "bindGeometry 4 2 example_world"
  let ?w2 = "renderModel (example_model True) ?t ?w1"
  let ?bad = "example_world\<lparr>renderer := example_storage\<rparr>"
  have r: "renderer example_world = RendererImpl_ctor ?crc example_storage"
    by (simp add: example_world_def)
  have e1: "exec_operation (Op_call (Call_bindGeometry 4 2)) example_world = Inr ?w1"
    by simp
  have e2: "exec_operations
      [Op_call (Call_bindGeometry 4 2), Op_call (Call_renderModel (example_model True) ?t)]
      example_world = Inr ?w2"
    by (simp add: and_then_def)
  have other: "m_last_bind_geometry_mesh (renderer example_world) \<noteq> Some 2"
    by (simp add: example_defs)
  have g: "m_last_bind_geometry (renderer ?w1) = Some 4"
    by (simp add: bindGeometry_other(2) [OF other])
  have b: "\<not> memo_consistent (renderer ?bad)" "m_last_bind_geometry (renderer ?bad) \<noteq> None"
    by (simp_all add: memo_consistent_def example_storage_def)
  note t1 = memo_pointers_null_together
              [of ?crc example_storage example_world "Op_call (Call_bindGeometry 4 2)" ?w1
                  "[Op_call (Call_bindGeometry 4 2),
                    Op_call (Call_renderModel (example_model True) ?t)]" ?w2]
  note t2 = memo_pointers_null_together
              [of ?crc example_storage ?w1 "Op_call (Call_bindGeometry 4 2)" ?w1 "[]" ?w1]
  note t3 = memo_pointers_null_together
              [of ?crc example_storage ?bad "Op_call (Call_bindGeometry 4 2)" ?w1 "[]" ?w1]
  from t1 have i0: "memo_consistent (renderer example_world)"
    using r by simp
  from t1 i0 e1 have i1: "memo_consistent (renderer ?w1)" by blast
  from t1 r e2 have i2: "memo_consistent (renderer ?w2)"
    "cleanup ?w2 \<noteq> Inl NullPointerDereference" by blast+
  from t2 i1 have c1: "cleanup ?w1 = Inr (cleaned_up ?w1)" by blast
  from t3 b have c3: "cleanup ?bad = Inl NullPointerDereference" by blast
  show ?thesis
    using r i0 e1 i1 g e2 i2 c1 b c3 by blast
qed

section \<open>C8: the attribute-name registry is lookup-or-append\<close>

declare register_names.simps [simp del]

lemma find_attribute_name_eq:
  "find_attribute_name names name i =
     (if name \<in> set (drop i names)
      then Some (i + length (takeWhile (\<lambda>x. x \<noteq> name) (drop i names)))
      else None)"
proof (induction names name i rule: find_attribute_name.induct)
  case (1 names name i)
  show ?case
  proof (cases "i < length names")
    case False
    then show ?thesis by (subst find_attribute_name.simps) simp
  next
    case True
    then have d: "drop i names = names ! i # drop (i + 1) names"
      by (simp add: Cons_nth_drop_Suc)
    show ?thesis
    proof (cases "names ! i = name")
      case hit: True
      with True show ?thesis by (subst find_attribute_name.simps) (simp add: d)
    next
      case miss: False
      with True "1.IH" [OF True miss] show ?thesis
        by (subst find_attribute_name.simps) (simp add: d)
    qed
  qed
qed

lemma getAttributeNameIndex_present:
  "name \<in> set (m_attribute_names r) \<Longrightarrow>
   getAttributeNameIndex name r =
     (int (length (takeWhile (\<lambda>x. x \<noteq> name) (m_attribute_names r))), r)"
  by (simp add: getAttributeNameIndex_def find_attribute_name_eq)

lemma getAttributeNameIndex_absent:
  "name \<notin> set (m_attribute_names r) \<Longrightarrow>
   getAttributeNameIndex name r =
     (int (length (m_attribute_names r)), r\<lparr>m_attribute_names := m_attribute_names r @ [name]\<rparr>)"
  by (simp add: getAttributeNameIndex_def find_attribute_name_eq Let_def)

lemma first_occurrence:
  assumes "name \<in> set names"
  defines "i \<equiv> length (takeWhile (\<lambda>x. x \<noteq> name) names)"
  shows "i < length names" "names ! i = name" "\<forall>j<i. names ! j \<noteq> name"
proof -
  have "length (takeWhile (\<lambda>x. x \<noteq> name) names) < length names"
    using assms(1) by (induction names) auto
  then show lt: "i < length names"
    by (simp add: i_def)
  from nth_length_takeWhile [OF lt [unfolded i_def]]
  show "names ! i = name" by (simp add: i_def)
  show "\<forall>j<i. names ! j \<noteq> name"
  proof (intro allI impI)
    fix j assume "j < i"
    then have j: "j < length (takeWhile (\<lambda>x. x \<noteq> name) names)" by (simp add: i_def)
    then have "takeWhile (\<lambda>x. x \<noteq> name) names ! j \<in> set (takeWhile (\<lambda>x. x \<noteq> name) names)"
      by (rule nth_mem)
    then have "takeWhile (\<lambda>x. x \<noteq> name) names ! j \<noteq> name"
      by (auto dest: set_takeWhileD)
    with j show "names ! j \<noteq> name" by (simp add: takeWhile_nth)
  qed
qed

lemma takeWhile_absent_prefix:
  "name \<notin> set names \<Longrightarrow>
   takeWhile (\<lambda>x. x \<noteq> name) (names @ rest) = names @ takeWhile (\<lambda>x. x \<noteq> name) rest"
  by (induction names) auto

lemma getAttributeNameIndex_names:
  "m_attribute_names (snd (getAttributeNameIndex name r)) =
     (if name \<in> set (m_attribute_names r) then m_attribute_names r
      else m_attribute_names r @ [name])"
  by (simp add: getAttributeNameIndex_present getAttributeNameIndex_absent)

lemma getAttributeNameIndex_index_stable:
  assumes "name \<in> set (m_attribute_names r)"
    and "m_attribute_names r' = m_attribute_names r @ suffix"
  shows "fst (getAttributeNameIndex name r') = fst (getAttributeNameIndex name r)"
proof -
  have "name \<in> set (m_attribute_names r')" using assms by simp
  then show ?thesis
    using assms by (simp add: getAttributeNameIndex_present takeWhile_append1)
qed

lemma register_names_Nil [simp]: "register_names [] r = ([], r)"
  by (simp add: register_names.simps)

lemma register_names_Cons:
  "register_names (n # ns) r =
     (fst (getAttributeNameIndex n r) # fst (register_names ns (snd (getAttributeNameIndex n r))),
      snd (register_names ns (snd (getAttributeNameIndex n r))))"
  by (simp add: register_names.simps Let_def split: prod.splits)

lemma register_names_grows:
  "\<exists>suffix. m_attribute_names (snd (register_names ns r)) = m_attribute_names r @ suffix"
proof (induction ns arbitrary: r)
  case Nil
  then show ?case by simp
next
  case (Cons n ns)
  obtain suffix where "m_attribute_names (snd (register_names ns (snd (getAttributeNameIndex n r)))) =
      m_attribute_names (snd (getAttributeNameIndex n r)) @ suffix"
    using Cons.IH by blast
  then show ?case
    by (simp add: register_names_Cons getAttributeNameIndex_names)
qed

lemma register_names_new:
  "distinct ns \<Longrightarrow> set ns \<inter> set (m_attribute_names r) = {} \<Longrightarrow>
   register_names ns r =
     (map int [length (m_attribute_names r)..<length (m_attribute_names r) + length ns],
      r\<lparr>m_attribute_names := m_attribute_names r @ ns\<rparr>)"
proof (induction ns arbitrary: r)
  case Nil
  then show ?case by simp
next
  case (Cons n ns)
  let ?r1 = "r\<lparr>m_attribute_names := m_attribute_names r @ [n]\<rparr>"
  have absent: "n \<notin> set (m_attribute_names r)" using Cons.prems by auto
  have step: "getAttributeNameIndex n r = (int (length (m_attribute_names r)), ?r1)"
    by (rule getAttributeNameIndex_absent [OF absent])
  have "distinct ns" "set ns \<inter> set (m_attribute_names ?r1) = {}"
    using Cons.prems by auto
  from Cons.IH [OF this]
  have ih: "register_names ns ?r1 =
      (map int [Suc (length (m_attribute_names r))..<Suc (length (m_attribute_names r)) + length ns],
       r\<lparr>m_attribute_names := m_attribute_names r @ n # ns\<rparr>)"
    by (simp del: upt_Suc)
  have up: "[length (m_attribute_names r)..<length (m_attribute_names r) + length (n # ns)] =
      length (m_attribute_names r)
      # [Suc (length (m_attribute_names r))..<Suc (length (m_attribute_names r)) + length ns]"
    by (simp add: upt_conv_Cons del: upt_Suc)
  show ?case
    unfolding up by (simp add: register_names_Cons step ih del: upt_Suc)
qed

text \<open>
  Claim C8. For a name in the registry \<open>getAttributeNameIndex\<close> returns the index of its
  first occurrence and leaves the renderer unchanged; for a name not in the registry it
  appends the name and returns the new last index. A repeated call returns the same
  index and changes nothing, also after any other names were registered in between; the
  registry only grows at its end; distinct new names get the next indices in the order
  they are seen, which from the constructed renderer's empty registry are 0, 1, 2, ...
\<close>

theorem getAttributeNameIndex_lookup_or_append:
  "(name \<in> set (m_attribute_names r) \<longrightarrow>
      (\<exists>i < length (m_attribute_names r).
          getAttributeNameIndex name r = (int i, r)
        \<and> m_attribute_names r ! i = name
        \<and> (\<forall>j<i. m_attribute_names r ! j \<noteq> name)))
 \<and> (name \<notin> set (m_attribute_names r) \<longrightarrow>
      getAttributeNameIndex name r =
        (int (length (m_attribute_names r)),
         r\<lparr>m_attribute_names := m_attribute_names r @ [name]\<rparr>))
 \<and> getAttributeNameIndex name (snd (getAttributeNameIndex name r)) =
      (fst (getAttributeNameIndex name r), snd (getAttributeNameIndex name r))
 \<and> fst (getAttributeNameIndex name
           (snd (register_names others (snd (getAttributeNameIndex name r))))) =
      fst (getAttributeNameIndex name r)
 \<and> (\<exists>suffix. m_attribute_names (snd (register_names ns r)) = m_attribute_names r @ suffix)
 \<and> (distinct ns \<and> set ns \<inter> set (m_attribute_names r) = {} \<longrightarrow>
      register_names ns r =
        (map int [length (m_attribute_names r)..<length (m_attribute_names r) + length ns],
         r\<lparr>m_attribute_names := m_attribute_names r @ ns\<rparr>))
 \<and> (distinct ns \<longrightarrow>
      register_names ns (RendererImpl_ctor crc32 storage) =
        (map int [0..<length ns], (RendererImpl_ctor crc32 storage)\<lparr>m_attribute_names := ns\<rparr>))"
proof (intro conjI impI)
  assume present: "name \<in> set (m_attribute_names r)"
  let ?i = "length (takeWhile (\<lambda>x. x \<noteq> name) (m_attribute_names r))"
  from first_occurrence [OF present] getAttributeNameIndex_present [OF present]
  show "\<exists>i < length (m_attribute_names r).
          getAttributeNameIndex name r = (int i, r)
        \<and> m_attribute_names r ! i = name
        \<and> (\<forall>j<i. m_attribute_names r ! j \<noteq> name)"
    by (intro exI [of _ ?i]) simp
next
  assume "name \<notin> set (m_attribute_names r)"
  then show "getAttributeNameIndex name r =
        (int (length (m_attribute_names r)),
         r\<lparr>m_attribute_names := m_attribute_names r @ [name]\<rparr>)"
    by (rule getAttributeNameIndex_absent)
next
  let ?r1 = "snd (getAttributeNameIndex name r)"
  have in1: "name \<in> set (m_attribute_names ?r1)"
    by (simp add: getAttributeNameIndex_names)
  have idx: "fst (getAttributeNameIndex name ?r1) = fst (getAttributeNameIndex name r)"
  proof (cases "name \<in> set (m_attribute_names r)")
    case True
    then show ?thesis by (simp add: getAttributeNameIndex_present)
  next
    case False
    then show ?thesis
      by (simp add: getAttributeNameIndex_absent getAttributeNameIndex_present
            takeWhile_absent_prefix)
  qed
  show "getAttributeNameIndex name ?r1 = (fst (getAttributeNameIndex name r), ?r1)"
    using idx getAttributeNameIndex_present [OF in1] by simp
  obtain suffix where "m_attribute_names (snd (register_names others ?r1)) =
      m_attribute_names ?r1 @ suffix"
    using register_names_grows by blast
  from getAttributeNameIndex_index_stable [OF in1 this] idx
  show "fst (getAttributeNameIndex name (snd (register_names others ?r1))) =
      fst (getAttributeNameIndex name r)"
    by simp
next
  show "\<exists>suffix. m_attribute_names (snd (register_names ns r)) = m_attribute_names r @ suffix"
    by (rule register_names_grows)
next
  assume "distinct ns \<and> set ns \<inter> set (m_attribute_names r) = {}"
  then show "register_names ns r =
        (map int [length (m_attribute_names r)..<length (m_attribute_names r) + length ns],
         r\<lparr>m_attribute_names := m_attribute_names r @ ns\<rparr>)"
    by (simp add: register_names_new)
next
  assume "distinct ns"
  then show "register_names ns (RendererImpl_ctor crc32 storage) =
        (map int [0..<length ns], (RendererImpl_ctor crc32 storage)\<lparr>m_attribute_names := ns\<rparr>)"
    using register_names_new [of ns "RendererImpl_ctor crc32 storage"]
    by (simp add: RendererImpl_ctor_def)
qed

theorem getAttributeNameIndex_lookup_or_append_witness:
  "distinct [''position'', ''normal'', ''uv'']
 \<and> register_names [''position'', ''normal'', ''uv''] (renderer example_world) =
      ([0, 1, 2], (renderer example_world)\<lparr>m_attribute_names := [''position'', ''normal'', ''uv'']\<rparr>)
 \<and> ''normal'' \<in> set (m_attribute_names
        ((renderer example_world)\<lparr>m_attribute_names := [''position'', ''normal'', ''uv'']\<rparr>))
 \<and> (\<exists>i < 3. getAttributeNameIndex ''normal''
        ((renderer example_world)\<lparr>m_attribute_names := [''position'', ''normal'', ''uv'']\<rparr>) =
        (int i, (renderer example_world)\<lparr>m_attribute_names := [''position'', ''normal'', ''uv'']\<rparr>)
        \<and> [''position'', ''normal'', ''uv''] ! i = ''normal'')
 \<and> ''tangent'' \<notin> set (m_attribute_names
        ((renderer example_world)\<lparr>m_attribute_names := [''position'', ''normal'', ''uv'']\<rparr>))
 \<and> getAttributeNameIndex ''tangent''
        ((renderer example_world)\<lparr>m_attribute_names := [''position'', ''normal'', ''uv'']\<rparr>) =
      (3, (renderer example_world)
            \<lparr>m_attribute_names := [''position'', ''normal'', ''uv'', ''tangent'']\<rparr>)
 \<and> distinct [''tangent'', ''color'']
 \<and> set [''tangent'', ''color''] \<inter> set [''position'', ''normal'', ''uv''] = {}
 \<and> register_names [''tangent'', ''color'']
        ((renderer example_world)\<lparr>m_attribute_names := [''position'', ''normal'', ''uv'']\<rparr>) =
      ([3, 4], (renderer example_world)
                 \<lparr>m_attribute_names := [''position'', ''normal'', ''uv'', ''tangent'', ''color'']\<rparr>)"
proof -
  let ?crc = "\<lambda>name :: string. (of_nat (length name) :: uint32_t)"
  let ?ns = "[''position'', ''normal'', ''uv'']"
  let ?r0 = "renderer example_world"
  let ?r1 = "?r0\<lparr>m_attribute_names := ?ns\<rparr>"
  have r0: "?r0 = RendererImpl_ctor ?crc example_storage"
    by (simp add: example_world_def)
  have d: "distinct ?ns" by simp
  have n1: "m_attribute_names ?r1 = ?ns" by simp
  have a: "''normal'' \<in> set (m_attribute_names ?r1)" by simp
  have b: "''tangent'' \<notin> set (m_attribute_names ?r1)" by simp
  note t0 = getAttributeNameIndex_lookup_or_append
              [of "''normal''" ?r1 "[]" ?ns ?crc example_storage]
  note t1 = getAttributeNameIndex_lookup_or_append
              [of "''tangent''" ?r1 "[]" ?ns ?crc example_storage]
  from t0 d have reg: "register_names ?ns (RendererImpl_ctor ?crc example_storage) =
      (map int [0..<length ?ns], (RendererImpl_ctor ?crc example_storage)\<lparr>m_attribute_names := ?ns\<rparr>)"
    by blast
  have reg': "register_names ?ns ?r0 = ([0, 1, 2], ?r1)"
    using reg unfolding r0 [symmetric] by (simp add: upt_rec)
  from t0 a have "\<exists>i < length (m_attribute_names ?r1).
      getAttributeNameIndex ''normal'' ?r1 = (int i, ?r1) \<and> m_attribute_names ?r1 ! i = ''normal''
      \<and> (\<forall>j<i. m_attribute_names ?r1 ! j \<noteq> ''normal'')"
    by blast
  then have hit: "\<exists>i < 3. getAttributeNameIndex ''normal'' ?r1 = (int i, ?r1) \<and> ?ns ! i = ''normal''"
    unfolding n1 by auto
  from t1 b have "getAttributeNameIndex ''tangent'' ?r1 =
      (int (length (m_attribute_names ?r1)),
       ?r1\<lparr>m_attribute_names := m_attribute_names ?r1 @ [''tangent'']\<rparr>)"
    by blast
  then have miss: "getAttributeNameIndex ''tangent'' ?r1 =
      (3, ?r0\<lparr>m_attribute_names := [''position'', ''normal'', ''uv'', ''tangent'']\<rparr>)"
    by simp
  have d2: "distinct [''tangent'', ''color'']"
    and dj: "set [''tangent'', ''color''] \<inter> set (m_attribute_names ?r1) = {}"
    by simp_all
  from getAttributeNameIndex_lookup_or_append
         [of "''normal''" ?r1 "[]" "[''tangent'', ''color'']" ?crc example_storage] d2 dj
  have "register_names [''tangent'', ''color''] ?r1 =
      (map int [length (m_attribute_names ?r1)..<
                length (m_attribute_names ?r1) + length [''tangent'', ''color'']],
       ?r1\<lparr>m_attribute_names := m_attribute_names ?r1 @ [''tangent'', ''color'']\<rparr>)"
    by blast
  then have more: "register_names [''tangent'', ''color''] ?r1 =
      ([3, 4], ?r0\<lparr>m_attribute_names := [''position'', ''normal'', ''uv'', ''tangent'', ''color'']\<rparr>)"
    by (simp add: upt_rec)
  have dj': "set [''tangent'', ''color''] \<inter> set [''position'', ''normal'', ''uv''] = {}"
    by simp
  show ?thesis
    using d reg' a hit b miss d2 dj' more by blast
qed

section \<open>C4: the program cache and the driver's bound program\<close>

text \<open>
  The uniform writes keep the cached program id equal to the driver's bound program, and
  \<open>applyShader\<close> makes them equal; \<open>cleanup\<close> binds program 0 and keeps the cached id.
\<close>

lemma applyShader_program [simp]:
  "m_last_program_id (renderer (applyShader sh c w)) =
     program_id (combinations (shader_at w sh) c (m_current_pass_hash (renderer w)))"
  "gl_current_program (gl (applyShader sh c w)) =
     program_id (combinations (shader_at w sh) c (m_current_pass_hash (renderer w)))"
  "shader_at (applyShader sh c w) =
     (shader_at w)(sh := setCurrentCombination (shader_at w sh) c (m_current_pass_hash (renderer w)))"
  by (simp_all add: applyShader_def Let_def setFixedCachedUniform_def useProgramIfChanged_def
        getProgramId_def setCurrentCombination_def)

lemma program_cache_tracks_driver:
  "m_last_program_id (renderer w) = gl_current_program (gl w) \<Longrightarrow>
   m_last_program_id (renderer (setUniform sh name h v w)) =
     gl_current_program (gl (setUniform sh name h v w))"
  "m_last_program_id (renderer w) = gl_current_program (gl w) \<Longrightarrow>
   m_last_program_id (renderer (setFixedCachedUniform sh n fv w)) =
     gl_current_program (gl (setFixedCachedUniform sh n fv w))"
  "m_last_program_id (renderer (applyShader sh c w)) = gl_current_program (gl (applyShader sh c w))"
  by (simp_all add: setUniform_def setFixedCachedUniform_def Let_def useProgramIfChanged_def)

lemma cleanup_keeps_program_cache:
  "cleanup w = Inr w' \<Longrightarrow>
   m_last_program_id (renderer w') = m_last_program_id (renderer w)
   \<and> gl_current_program (gl w') = 0"
  by (auto simp: cleanup_eq cleaned_gl_def split: if_splits)

text \<open>
  Claim C4 says that every driver call that changes state updates its cache in the same
  operation, in particular that \<open>cleanup\<close> leaves the cached program id consistent with
  the program it unbinds. Evaluated: after \<open>applyShader\<close> has bound program 5,
  \<open>cleanup\<close> returns with program 0 bound on the driver and 5 still cached; a
  \<open>setUniform\<close> on the same shader then finds the cached id equal, makes the write as its
  only call, and the driver still has program 0 bound.
\<close>

theorem cleanup_leaves_program_cache_stale:
  "m_last_program_id (renderer (applyShader 0 0 example_world)) = 5
 \<and> gl_current_program (gl (applyShader 0 0 example_world)) = 5
 \<and> cleanup (applyShader 0 0 example_world) = Inr (cleaned_up (applyShader 0 0 example_world))
 \<and> gl_current_program (gl (cleaned_up (applyShader 0 0 example_world))) = 0
 \<and> m_last_program_id (renderer (cleaned_up (applyShader 0 0 example_world))) = 5
 \<and> getProgramId (shader_at (cleaned_up (applyShader 0 0 example_world)) 0) = 5
 \<and> calls_since (cleaned_up (applyShader 0 0 example_world))
      (setUniform 0 ''u_color'' 0 (UInt 1) (cleaned_up (applyShader 0 0 example_world))) =
      [GlUniform1i 3 1]
 \<and> gl_current_program
      (gl (setUniform 0 ''u_color'' 0 (UInt 1) (cleaned_up (applyShader 0 0 example_world)))) = 0"
proof -
  let ?w1 = "applyShader 0 0 example_world"
  let ?w2 = "cleaned_up ?w1"
  have p: "program_id (combinations (shader_at example_world 0) 0
             (m_current_pass_hash (renderer example_world))) = 5"
    by (simp add: example_defs)
  have inv: "memo_consistent (renderer ?w1)"
    by (simp add: memo_consistent_def) (simp add: example_defs)
  have c: "cleanup ?w1 = Inr ?w2" by (rule cleanup_returns [OF inv])
  have sh: "getProgramId (shader_at ?w2 0) = 5"
    "getUniformLocation (shader_at ?w2 0) ''u_color'' 0 = 3"
    by (simp_all add: getProgramId_def getUniformLocation_def setCurrentCombination_def)
       (simp_all add: example_defs)
  have cache: "m_last_program_id (renderer ?w2) = 5" by (simp add: p)
  have same: "m_last_program_id (renderer ?w2) = getProgramId (shader_at ?w2 0)"
    by (simp only: sh(1) cache)
  have keep: "useProgramIfChanged 0 ?w2 = ?w2"
    by (rule useProgramIfChanged_same [OF same])
  have u: "setUniform 0 ''u_color'' 0 (UInt 1) ?w2 = driver (GlUniform1i 3 1) ?w2"
    unfolding setUniform_def Let_def sh(2) keep by simp
  show ?thesis
    using c sh(1) cache by (simp add: u p calls_since_def cleaned_gl_def)
qed

section \<open>C2: a uniform write and the program the driver has bound\<close>

text \<open>
  Claim C2 says that a uniform write with a resolved location is made with the shader's
  program bound: the program is bound, and the cache updated, before the write whenever
  the cached id differs, so that the write always targets the shader's program.
  Evaluated on the constructed renderer after \<open>applyShader\<close> and then \<open>cleanup\<close>: the
  shader's program is 5, the cached id is still 5 and the driver has program 0 bound;
  \<open>setUniform\<close> and \<open>setFixedCachedUniform\<close> on that shader resolve their locations,
  find the cached id equal and make the write as their only call, so the write is issued
  with program 0 bound.
\<close>

theorem uniform_write_after_cleanup_has_no_program:
  "exec_operations [Op_call (Call_applyShader 0 0), Op_call Call_cleanup] example_world =
     Inr (cleaned_up (applyShader 0 0 example_world))
 \<and> getProgramId (shader_at (cleaned_up (applyShader 0 0 example_world)) 0) = 5
 \<and> m_last_program_id (renderer (cleaned_up (applyShader 0 0 example_world))) = 5
 \<and> gl_current_program (gl (cleaned_up (applyShader 0 0 example_world))) = 0
 \<and> getUniformLocation (shader_at (cleaned_up (applyShader 0 0 example_world)) 0) ''u_color'' 0 = 3
 \<and> setUniform 0 ''u_color'' 0 (UFloat 2) (cleaned_up (applyShader 0 0 example_world)) =
     driver (GlUniform1f 3 2) (cleaned_up (applyShader 0 0 example_world))
 \<and> gl_current_program
      (gl (setUniform 0 ''u_color'' 0 (UFloat 2) (cleaned_up (applyShader 0 0 example_world)))) = 0
 \<and> getFixedCachedUniformLocation (shader_at (cleaned_up (applyShader 0 0 example_world)) 0)
      WORLD_MATRIX = 0
 \<and> setFixedCachedUniform 0 WORLD_MATRIX (FMatrix example_matrix)
      (cleaned_up (applyShader 0 0 example_world)) =
     driver (GlUniformMatrix4fv 0 1 False [example_matrix])
       (cleaned_up (applyShader 0 0 example_world))"
proof -
  let ?w1 = "applyShader 0 0 example_world"
  let ?w2 = "cleaned_up ?w1"
  have p: "program_id (combinations (shader_at example_world 0) 0
             (m_current_pass_hash (renderer example_world))) = 5"
    by (simp add: example_defs)
  have inv: "memo_consistent (renderer ?w1)"
    by (simp add: memo_consistent_def) (simp add: example_defs)
  have c: "cleanup ?w1 = Inr ?w2" by (rule cleanup_returns [OF inv])
  have ex: "exec_operations [Op_call (Call_applyShader 0 0), Op_call Call_cleanup] example_world =
      Inr ?w2"
    by (simp add: and_then_def c)
  have sh: "getProgramId (shader_at ?w2 0) = 5"
    "getUniformLocation (shader_at ?w2 0) ''u_color'' 0 = 3"
    "getFixedCachedUniformLocation (shader_at ?w2 0) WORLD_MATRIX = 0"
    by (simp_all add: getProgramId_def getUniformLocation_def getFixedCachedUniformLocation_def
          setCurrentCombination_def)
       (simp_all add: example_defs)
  have cache: "m_last_program_id (renderer ?w2) = 5" by (simp add: p)
  have unbound: "gl_current_program (gl ?w2) = 0" by (simp add: cleaned_gl_def)
  have same: "m_last_program_id (renderer ?w2) = getProgramId (shader_at ?w2 0)"
    by (simp only: sh(1) cache)
  have keep: "useProgramIfChanged 0 ?w2 = ?w2"
    by (rule useProgramIfChanged_same [OF same])
  have u: "setUniform 0 ''u_color'' 0 (UFloat 2) ?w2 = driver (GlUniform1f 3 2) ?w2"
    unfolding setUniform_def Let_def sh(2) keep by simp
  have f: "setFixedCachedUniform 0 WORLD_MATRIX (FMatrix example_matrix) ?w2 =
      driver (GlUniformMatrix4fv 0 1 False [example_matrix]) ?w2"
    unfolding setFixedCachedUniform_def Let_def sh(3) keep by simp
  have after: "gl_current_program (gl (setUniform 0 ''u_color'' 0 (UFloat 2) ?w2)) = 0"
    unfolding u by (simp add: cleaned_gl_def)
  show ?thesis
    by (intro conjI ex sh cache unbound u f after)
qed

section \<open>C7: rendering a frame with or without a device\<close>

text \<open>
  Claim C7 says that \<open>renderGame\<close> is a no-op that cannot crash when \<open>setRenderDevice\<close>
  was never called. The constructor does not write \<open>m_render_device\<close>, so the field
  holds what its storage held. Evaluated: on the renderer constructed in storage that
  held the non-null value 7 there, with no device alive at that address, \<open>renderGame\<close>
  passes the null test and uses the pointer.
\<close>

theorem renderGame_without_setRenderDevice_faults:
  "m_render_device (RendererImpl_ctor crc32 storage) = m_render_device storage
 \<and> m_render_device (renderer example_world) = Some 7
 \<and> device_at example_world 7 = None
 \<and> renderGame example_world = Inl InvalidPointerDereference"
  by (simp add: renderGame_def RendererImpl_ctor_def example_world_def example_storage_def)

text \<open>
  With a null device pointer \<open>renderGame\<close> changes nothing; with a live device it calls
  \<open>beginFrame\<close>, then \<open>render\<close> (depth test on, blending off, the pipeline's render
  step, \<open>cleanup\<close>), then \<open>endFrame\<close>.
\<close>

lemma renderGame_null_device:
  "m_render_device (renderer w) = None \<Longrightarrow> renderGame w = Inr w"
  by (simp add: renderGame_def)

lemma renderGame_frame_order:
  assumes "m_render_device (renderer w) = Some device"
    and "device_at w device = Some pipeline"
    and "renderGame w = Inr w'"
  shows "\<exists>w1 w2. exec_calls pipeline
                    (driver (Pipeline_render device)
                       (driver (GlDisable GL_BLEND)
                          (driver (GlEnable GL_DEPTH_TEST)
                             (driver (Device_beginFrame device) w)))) = Inr w1
               \<and> cleanup w1 = Inr w2
               \<and> w' = driver (Device_endFrame device) w2"
  using assms
  by (auto simp: renderGame_def render_def Let_def and_then_def split: sum.splits)

section \<open>C6: rendering a model\<close>

lemma setFixedCachedUniform_cached:
  "m_last_program_id (renderer w) = getProgramId (shader_at w sh) \<Longrightarrow>
   setFixedCachedUniform sh n v w =
     (if 0 \<le> getFixedCachedUniformLocation (shader_at w sh) n
      then driver (fixed_uniform_write (getFixedCachedUniformLocation (shader_at w sh) n) v) w
      else w)"
  by (simp add: setFixedCachedUniform_def Let_def useProgramIfChanged_def)

lemma applyShader_calls:
  "calls (applyShader sh c w) =
     calls w
     @ [Shader_setCurrentCombination sh c (m_current_pass_hash (renderer w)),
        GlUseProgram (program_id (combinations (shader_at w sh) c (m_current_pass_hash (renderer w))))]
     @ (if 0 \<le> fixed_location (combinations (shader_at w sh) c (m_current_pass_hash (renderer w)))
                  VIEW_MATRIX
        then [GlUniformMatrix4fv
                (fixed_location (combinations (shader_at w sh) c (m_current_pass_hash (renderer w)))
                   VIEW_MATRIX) 1 False [m_view_matrix (renderer w)]]
        else [])
     @ (if 0 \<le> fixed_location (combinations (shader_at w sh) c (m_current_pass_hash (renderer w)))
                  PROJECTION_MATRIX
        then [GlUniformMatrix4fv
                (fixed_location (combinations (shader_at w sh) c (m_current_pass_hash (renderer w)))
                   PROJECTION_MATRIX) 1 False [m_projection_matrix (renderer w)]]
        else [])"
  by (simp add: applyShader_def Let_def setFixedCachedUniform_def useProgramIfChanged_def
        getProgramId_def getFixedCachedUniformLocation_def setCurrentCombination_def)

lemma applyShader_renderer:
  "renderer (applyShader sh c w) =
     (renderer w)\<lparr>m_last_program_id :=
        program_id (combinations (shader_at w sh) c (m_current_pass_hash (renderer w)))\<rparr>"
  by (simp add: applyShader_def Let_def setFixedCachedUniform_def useProgramIfChanged_def
        getProgramId_def getFixedCachedUniformLocation_def setCurrentCombination_def)

lemma applyMaterial_calls:
  "calls (applyMaterial m w) =
     calls w
     @ [Material_apply m,
        Shader_setCurrentCombination (material_shader (material_at w m))
          (material_shader_combination (material_at w m)) (m_current_pass_hash (renderer w)),
        GlUseProgram (program_id (combinations (shader_at w (material_shader (material_at w m)))
          (material_shader_combination (material_at w m)) (m_current_pass_hash (renderer w))))]
     @ (if 0 \<le> fixed_location (combinations (shader_at w (material_shader (material_at w m)))
                    (material_shader_combination (material_at w m))
                    (m_current_pass_hash (renderer w))) VIEW_MATRIX
        then [GlUniformMatrix4fv
                (fixed_location (combinations (shader_at w (material_shader (material_at w m)))
                    (material_shader_combination (material_at w m))
                    (m_current_pass_hash (renderer w))) VIEW_MATRIX)
                1 False [m_view_matrix (renderer w)]]
        else [])
     @ (if 0 \<le> fixed_location (combinations (shader_at w (material_shader (material_at w m)))
                    (material_shader_combination (material_at w m))
                    (m_current_pass_hash (renderer w))) PROJECTION_MATRIX
        then [GlUniformMatrix4fv
                (fixed_location (combinations (shader_at w (material_shader (material_at w m)))
                    (material_shader_combination (material_at w m))
                    (m_current_pass_hash (renderer w))) PROJECTION_MATRIX)
                1 False [m_projection_matrix (renderer w)]]
        else [])"
  by (simp add: applyMaterial_def applyShader_calls)

lemma applyMaterial_renderer:
  "renderer (applyMaterial m w) =
     (renderer w)\<lparr>m_last_program_id :=
        program_id (combinations (shader_at w (material_shader (material_at w m)))
          (material_shader_combination (material_at w m)) (m_current_pass_hash (renderer w)))\<rparr>"
  by (simp add: applyMaterial_def applyShader_renderer)

lemma applyMaterial_shader_at:
  "shader_at (applyMaterial m w) =
     (shader_at w)(material_shader (material_at w m) :=
        setCurrentCombination (shader_at w (material_shader (material_at w m)))
          (material_shader_combination (material_at w m)) (m_current_pass_hash (renderer w)))"
  by (simp add: applyMaterial_def)

lemma bindGeometry_calls:
  "calls (bindGeometry geometry mesh w) =
     calls w
     @ (if m_last_bind_geometry_mesh (renderer w) \<noteq> Some mesh
        then (case m_last_bind_geometry_mesh (renderer w) of
                None \<Rightarrow> []
              | Some previous \<Rightarrow> [VertexDef_end previous (mesh_shader w previous)])
             @ [Geometry_bindBuffers geometry,
                GlBindBuffer GL_ARRAY_BUFFER (geometry_vertex_buffer (geometry_at w geometry)),
                GlBindBuffer GL_ELEMENT_ARRAY_BUFFER (geometry_index_buffer (geometry_at w geometry)),
                VertexDef_begin mesh (mesh_shader w mesh)
                  (mesh_attribute_array_offset (mesh_at w mesh))]
        else [])"
proof (cases "m_last_bind_geometry_mesh (renderer w) = Some mesh")
  case True
  then show ?thesis by (simp add: bindGeometry_same)
next
  case False
  then show ?thesis by (simp add: bindGeometry_other(1) [OF False])
qed

lemma bindGeometry_bound_mesh:
  "m_last_bind_geometry_mesh (renderer (bindGeometry geometry mesh w)) = Some mesh"
proof (cases "m_last_bind_geometry_mesh (renderer w) = Some mesh")
  case True
  then show ?thesis by (simp add: bindGeometry_same)
next
  case False
  then show ?thesis by (simp add: bindGeometry_other(2) [OF False])
qed

lemma bindGeometry_scene [simp]:
  "m_current_pass_hash (renderer (bindGeometry g m w)) = m_current_pass_hash (renderer w)"
  "m_view_matrix (renderer (bindGeometry g m w)) = m_view_matrix (renderer w)"
  "m_projection_matrix (renderer (bindGeometry g m w)) = m_projection_matrix (renderer w)"
  by (cases "m_last_bind_geometry_mesh (renderer w) = Some m";
      simp add: bindGeometry_same bindGeometry_other(2))+

lemma setFixedCachedUniform_scene [simp]:
  "m_current_pass_hash (renderer (setFixedCachedUniform sh n v w)) =
     m_current_pass_hash (renderer w)"
  "m_view_matrix (renderer (setFixedCachedUniform sh n v w)) = m_view_matrix (renderer w)"
  "m_projection_matrix (renderer (setFixedCachedUniform sh n v w)) =
     m_projection_matrix (renderer w)"
  by (simp_all add: setFixedCachedUniform_def Let_def useProgramIfChanged_def)

lemma renderModel_mesh_calls:
  "calls (renderModel_mesh model t mesh w) =
     calls w @ mesh_trace w model t (m_last_bind_geometry_mesh (renderer w)) mesh"
proof -
  let ?mat = "mesh_material (mesh_at w mesh)"
  let ?sh = "material_shader (material_at w ?mat)"
  let ?comb = "material_shader_combination (material_at w ?mat)"
  let ?pass = "m_current_pass_hash (renderer w)"
  let ?prog = "combinations (shader_at w ?sh) ?comb ?pass"
  let ?w1 = "applyMaterial ?mat w"
  let ?w2 = "setFixedCachedUniform ?sh WORLD_MATRIX (FMatrix t) ?w1"
  let ?w3 = "bindGeometry (model_geometry model) mesh ?w2"
  have sh: "mesh_shader w mesh = ?sh" by (simp add: mesh_shader_def)
  have cur: "current_combination (shader_at ?w1 ?sh) = ?prog"
    by (simp add: applyMaterial_shader_at setCurrentCombination_def)
  have cache: "m_last_program_id (renderer ?w1) = getProgramId (shader_at ?w1 ?sh)"
    by (simp add: applyMaterial_renderer getProgramId_def cur)
  have loc: "getFixedCachedUniformLocation (shader_at ?w1 ?sh) WORLD_MATRIX =
             fixed_location ?prog WORLD_MATRIX"
    by (simp add: getFixedCachedUniformLocation_def cur)
  have w2: "?w2 = (if 0 \<le> fixed_location ?prog WORLD_MATRIX
                   then driver (GlUniformMatrix4fv (fixed_location ?prog WORLD_MATRIX) 1 False [t]) ?w1
                   else ?w1)"
    unfolding setFixedCachedUniform_cached [OF cache] loc by simp
  have c2: "calls ?w2 = calls ?w1
              @ (if 0 \<le> fixed_location ?prog WORLD_MATRIX
                 then [GlUniformMatrix4fv (fixed_location ?prog WORLD_MATRIX) 1 False [t]]
                 else [])"
    by (subst w2) simp
  have memo2: "m_last_bind_geometry_mesh (renderer ?w2) = m_last_bind_geometry_mesh (renderer w)"
    by simp
  have ms2: "\<And>p. mesh_shader ?w2 p = mesh_shader w p"
    by (simp add: mesh_shader_def)
  have g2: "geometry_at ?w2 = geometry_at w" "mesh_at ?w2 = mesh_at w"
    by simp_all
  have c3: "calls ?w3 = calls ?w2
     @ (if m_last_bind_geometry_mesh (renderer w) \<noteq> Some mesh
        then (case m_last_bind_geometry_mesh (renderer w) of
                None \<Rightarrow> []
              | Some previous \<Rightarrow> [VertexDef_end previous (mesh_shader w previous)])
             @ [Geometry_bindBuffers (model_geometry model),
                GlBindBuffer GL_ARRAY_BUFFER
                  (geometry_vertex_buffer (geometry_at w (model_geometry model))),
                GlBindBuffer GL_ELEMENT_ARRAY_BUFFER
                  (geometry_index_buffer (geometry_at w (model_geometry model))),
                VertexDef_begin mesh ?sh (mesh_attribute_array_offset (mesh_at w mesh))]
        else [])"
    unfolding bindGeometry_calls memo2 ms2 g2 sh ..
  have c4: "calls (renderModel_mesh model t mesh w) =
      calls ?w3 @ [GlDrawElements (mesh_index_count (mesh_at w mesh))
                     (mesh_indices_offset (mesh_at w mesh))]"
    by (simp add: renderModel_mesh_steps sh)
  show ?thesis
    unfolding c4 c3 c2 applyMaterial_calls mesh_trace_def Let_def by simp
qed

lemma renderModel_mesh_bound_mesh:
  "m_last_bind_geometry_mesh (renderer (renderModel_mesh model t mesh w)) = Some mesh"
  by (simp add: renderModel_mesh_steps bindGeometry_bound_mesh)

lemma renderModel_mesh_scene:
  "m_current_pass_hash (renderer (renderModel_mesh model t mesh w)) =
     m_current_pass_hash (renderer w)"
  "m_view_matrix (renderer (renderModel_mesh model t mesh w)) = m_view_matrix (renderer w)"
  "m_projection_matrix (renderer (renderModel_mesh model t mesh w)) =
     m_projection_matrix (renderer w)"
  "combinations (shader_at (renderModel_mesh model t mesh w) sh) = combinations (shader_at w sh)"
  by (simp_all add: renderModel_mesh_steps applyMaterial_renderer applyMaterial_shader_at
        setCurrentCombination_def)

lemma mesh_trace_scene:
  assumes "mesh_at w' = mesh_at w" "material_at w' = material_at w"
    "geometry_at w' = geometry_at w"
    "m_current_pass_hash (renderer w') = m_current_pass_hash (renderer w)"
    "m_view_matrix (renderer w') = m_view_matrix (renderer w)"
    "m_projection_matrix (renderer w') = m_projection_matrix (renderer w)"
    "\<And>sh. combinations (shader_at w' sh) = combinations (shader_at w sh)"
  shows "mesh_trace w' model t bound mesh = mesh_trace w model t bound mesh"
  by (simp add: mesh_trace_def mesh_shader_def Let_def assms split: option.splits)

lemma model_trace_scene:
  assumes "mesh_at w' = mesh_at w" "material_at w' = material_at w"
    "geometry_at w' = geometry_at w"
    "m_current_pass_hash (renderer w') = m_current_pass_hash (renderer w)"
    "m_view_matrix (renderer w') = m_view_matrix (renderer w)"
    "m_projection_matrix (renderer w') = m_projection_matrix (renderer w)"
    "\<And>sh. combinations (shader_at w' sh) = combinations (shader_at w sh)"
  shows "model_trace w' model t bound meshes = model_trace w model t bound meshes"
  by (induction meshes arbitrary: bound) (simp_all add: mesh_trace_scene [OF assms])

lemma fold_renderModel_mesh_calls:
  "calls (fold (renderModel_mesh model t) meshes w) =
     calls w @ model_trace w model t (m_last_bind_geometry_mesh (renderer w)) meshes"
proof (induction meshes arbitrary: w)
  case Nil
  then show ?case by simp
next
  case (Cons mesh meshes)
  let ?w1 = "renderModel_mesh model t mesh w"
  have "model_trace ?w1 model t (Some mesh) meshes = model_trace w model t (Some mesh) meshes"
    by (rule model_trace_scene) (simp_all add: renderModel_mesh_scene)
  then show ?case
    by (simp add: Cons.IH renderModel_mesh_calls renderModel_mesh_bound_mesh)
qed

lemma renderModel_mesh_state:
  "m_last_bind_geometry (renderer (renderModel_mesh model t mesh w)) =
     (if m_last_bind_geometry_mesh (renderer w) = Some mesh
      then m_last_bind_geometry (renderer w) else Some (model_geometry model))"
  "m_last_program_id (renderer (renderModel_mesh model t mesh w)) =
     program_id (combinations
       (shader_at w (material_shader (material_at w (mesh_material (mesh_at w mesh)))))
       (material_shader_combination (material_at w (mesh_material (mesh_at w mesh))))
       (m_current_pass_hash (renderer w)))"
proof -
  let ?mat = "mesh_material (mesh_at w mesh)"
  let ?sh = "material_shader (material_at w ?mat)"
  let ?prog = "combinations (shader_at w ?sh) (material_shader_combination (material_at w ?mat))
                 (m_current_pass_hash (renderer w))"
  let ?w1 = "applyMaterial ?mat w"
  let ?w2 = "setFixedCachedUniform ?sh WORLD_MATRIX (FMatrix t) ?w1"
  have sh: "mesh_shader w mesh = ?sh" by (simp add: mesh_shader_def)
  have cur: "current_combination (shader_at ?w1 ?sh) = ?prog"
    by (simp add: applyMaterial_shader_at setCurrentCombination_def)
  have cache: "m_last_program_id (renderer ?w1) = getProgramId (shader_at ?w1 ?sh)"
    by (simp add: applyMaterial_renderer getProgramId_def cur)
  have p2: "m_last_program_id (renderer ?w2) = program_id ?prog"
    unfolding setFixedCachedUniform_cached [OF cache]
    by (simp add: applyMaterial_renderer)
  have memo2: "m_last_bind_geometry_mesh (renderer ?w2) = m_last_bind_geometry_mesh (renderer w)"
    "m_last_bind_geometry (renderer ?w2) = m_last_bind_geometry (renderer w)"
    by simp_all
  show "m_last_bind_geometry (renderer (renderModel_mesh model t mesh w)) =
     (if m_last_bind_geometry_mesh (renderer w) = Some mesh
      then m_last_bind_geometry (renderer w) else Some (model_geometry model))"
  proof (cases "m_last_bind_geometry_mesh (renderer w) = Some mesh")
    case True
    then have "m_last_bind_geometry_mesh (renderer ?w2) = Some mesh" by simp
    then show ?thesis
      using True by (simp add: renderModel_mesh_steps sh bindGeometry_same)
  next
    case False
    then have other: "m_last_bind_geometry_mesh (renderer ?w2) \<noteq> Some mesh" by simp
    show ?thesis
      using False by (simp add: renderModel_mesh_steps sh bindGeometry_other(2) [OF other])
  qed
  show "m_last_program_id (renderer (renderModel_mesh model t mesh w)) = program_id ?prog"
  proof (cases "m_last_bind_geometry_mesh (renderer w) = Some mesh")
    case True
    then have "m_last_bind_geometry_mesh (renderer ?w2) = Some mesh" by simp
    then show ?thesis
      using p2 by (simp add: renderModel_mesh_steps sh bindGeometry_same)
  next
    case False
    then have other: "m_last_bind_geometry_mesh (renderer ?w2) \<noteq> Some mesh" by simp
    show ?thesis
      using p2 by (simp add: renderModel_mesh_steps sh bindGeometry_other(2) [OF other])
  qed
qed

lemma applyShader_gl:
  "gl (applyShader sh c w) =
     (gl w)\<lparr>gl_current_program :=
        program_id (combinations (shader_at w sh) c (m_current_pass_hash (renderer w)))\<rparr>"
  by (simp add: applyShader_def Let_def setFixedCachedUniform_def useProgramIfChanged_def
        getProgramId_def getFixedCachedUniformLocation_def setCurrentCombination_def)

lemma applyMaterial_gl:
  "gl (applyMaterial m w) =
     (gl w)\<lparr>gl_current_program :=
        program_id (combinations (shader_at w (material_shader (material_at w m)))
          (material_shader_combination (material_at w m)) (m_current_pass_hash (renderer w)))\<rparr>"
  by (simp add: applyMaterial_def applyShader_gl)

lemma renderModel_mesh_renderer_gl:
  "renderer (renderModel_mesh model t mesh w) =
     (renderer w)
       \<lparr>m_last_bind_geometry :=
          (if m_last_bind_geometry_mesh (renderer w) = Some mesh
           then m_last_bind_geometry (renderer w) else Some (model_geometry model)),
        m_last_bind_geometry_mesh := Some mesh,
        m_last_program_id :=
          program_id (combinations
            (shader_at w (material_shader (material_at w (mesh_material (mesh_at w mesh)))))
            (material_shader_combination (material_at w (mesh_material (mesh_at w mesh))))
            (m_current_pass_hash (renderer w)))\<rparr>"
  "gl (renderModel_mesh model t mesh w) =
     (if m_last_bind_geometry_mesh (renderer w) = Some mesh
      then (gl w)\<lparr>gl_current_program :=
              program_id (combinations
                (shader_at w (material_shader (material_at w (mesh_material (mesh_at w mesh)))))
                (material_shader_combination (material_at w (mesh_material (mesh_at w mesh))))
                (m_current_pass_hash (renderer w)))\<rparr>
      else (gl w)\<lparr>gl_current_program :=
              program_id (combinations
                (shader_at w (material_shader (material_at w (mesh_material (mesh_at w mesh)))))
                (material_shader_combination (material_at w (mesh_material (mesh_at w mesh))))
                (m_current_pass_hash (renderer w))),
              gl_array_buffer := geometry_vertex_buffer (geometry_at w (model_geometry model)),
              gl_element_array_buffer :=
                geometry_index_buffer (geometry_at w (model_geometry model))\<rparr>)"
proof -
  let ?mat = "mesh_material (mesh_at w mesh)"
  let ?sh = "material_shader (material_at w ?mat)"
  let ?prog = "combinations (shader_at w ?sh) (material_shader_combination (material_at w ?mat))
                 (m_current_pass_hash (renderer w))"
  let ?w1 = "applyMaterial ?mat w"
  let ?w2 = "setFixedCachedUniform ?sh WORLD_MATRIX (FMatrix t) ?w1"
  let ?w3 = "bindGeometry (model_geometry model) mesh ?w2"
  have sh: "mesh_shader w mesh = ?sh" by (simp add: mesh_shader_def)
  have cur: "current_combination (shader_at ?w1 ?sh) = ?prog"
    by (simp add: applyMaterial_shader_at setCurrentCombination_def)
  have cache: "m_last_program_id (renderer ?w1) = getProgramId (shader_at ?w1 ?sh)"
    by (simp add: applyMaterial_renderer getProgramId_def cur)
  have r2: "renderer ?w2 = (renderer w)\<lparr>m_last_program_id := program_id ?prog\<rparr>"
    unfolding setFixedCachedUniform_cached [OF cache]
    by (simp add: applyMaterial_renderer)
  have g2: "gl ?w2 = (gl w)\<lparr>gl_current_program := program_id ?prog\<rparr>"
    unfolding setFixedCachedUniform_cached [OF cache]
    by (simp add: applyMaterial_gl)
  have ga2: "geometry_at ?w2 = geometry_at w" by simp
  have steps: "renderer (renderModel_mesh model t mesh w) = renderer ?w3"
    "gl (renderModel_mesh model t mesh w) = gl ?w3"
    by (simp_all add: renderModel_mesh_steps sh renderGeometry_def)
  show "renderer (renderModel_mesh model t mesh w) =
     (renderer w)
       \<lparr>m_last_bind_geometry :=
          (if m_last_bind_geometry_mesh (renderer w) = Some mesh
           then m_last_bind_geometry (renderer w) else Some (model_geometry model)),
        m_last_bind_geometry_mesh := Some mesh,
        m_last_program_id := program_id ?prog\<rparr>"
  proof (cases "m_last_bind_geometry_mesh (renderer w) = Some mesh")
    case True
    then have "m_last_bind_geometry_mesh (renderer ?w2) = Some mesh" by simp
    then have "renderer ?w3 = renderer ?w2" by (simp add: bindGeometry_same)
    then show ?thesis
      unfolding steps r2 using True by (intro RendererImpl.equality) simp_all
  next
    case False
    then have other: "m_last_bind_geometry_mesh (renderer ?w2) \<noteq> Some mesh" by simp
    show ?thesis
      unfolding steps bindGeometry_other(2) [OF other] r2
      using False by (intro RendererImpl.equality) simp_all
  qed
  show "gl (renderModel_mesh model t mesh w) =
     (if m_last_bind_geometry_mesh (renderer w) = Some mesh
      then (gl w)\<lparr>gl_current_program := program_id ?prog\<rparr>
      else (gl w)\<lparr>gl_current_program := program_id ?prog,
              gl_array_buffer := geometry_vertex_buffer (geometry_at w (model_geometry model)),
              gl_element_array_buffer :=
                geometry_index_buffer (geometry_at w (model_geometry model))\<rparr>)"
  proof (cases "m_last_bind_geometry_mesh (renderer w) = Some mesh")
    case True
    then have "m_last_bind_geometry_mesh (renderer ?w2) = Some mesh" by simp
    then have "gl ?w3 = gl ?w2" by (simp add: bindGeometry_same)
    then show ?thesis
      unfolding steps g2 using True by simp
  next
    case False
    then have other: "m_last_bind_geometry_mesh (renderer ?w2) \<noteq> Some mesh" by simp
    show ?thesis
      unfolding steps bindGeometry_other(3) [OF other] g2 ga2
      using False by simp
  qed
qed

text \<open>
  Claim C6. For a model that is not ready, \<open>renderModel\<close> returns the world unchanged (no
  draw, no material application, no shader bind, no change of state). For a ready model it
  runs the loop body on every mesh in declaration order, and the calls it makes are, mesh
  by mesh in that order and with nothing else between them: the application of the mesh's
  material with its shader, the write of the world-matrix fixed uniform from the given
  transform where the shader's program has it, the calls of \<open>bindGeometry\<close> for the
  model's geometry and the mesh (none when the mesh is already bound, the previous mesh's
  teardown first otherwise), and one indexed draw of the mesh's index count at its index
  offset. The loop body is these four steps in this order; it leaves the mesh bound, the
  model's geometry remembered unless the mesh was bound already, and the program of the
  mesh's shader cached and bound on the driver, with the geometry's buffers bound when the
  mesh was not bound already; nothing else of the renderer changes.
\<close>

theorem renderModel_guard_and_order:
  "(\<not> model_is_ready model \<longrightarrow> renderModel model transform w = w)
 \<and> (model_is_ready model \<longrightarrow>
      renderModel model transform w =
        fold (renderModel_mesh model transform) (model_meshes model) w
      \<and> calls_since w (renderModel model transform w) =
          model_trace w model transform (m_last_bind_geometry_mesh (renderer w))
            (model_meshes model)
      \<and> filter is_material_or_draw (calls_since w (renderModel model transform w)) =
          concat (map (mesh_events w) (model_meshes model))
      \<and> length (filter is_draw (calls_since w (renderModel model transform w))) =
          length (model_meshes model))
 \<and> renderModel_mesh model transform mesh w =
     renderGeometry (mesh_indices_offset (mesh_at w mesh)) (mesh_index_count (mesh_at w mesh))
       (bindGeometry (model_geometry model) mesh
          (setFixedCachedUniform (mesh_shader w mesh) WORLD_MATRIX (FMatrix transform)
             (applyMaterial (mesh_material (mesh_at w mesh)) w)))
 \<and> calls_since w (renderModel_mesh model transform mesh w) =
     mesh_trace w model transform (m_last_bind_geometry_mesh (renderer w)) mesh
 \<and> m_last_bind_geometry_mesh (renderer (renderModel_mesh model transform mesh w)) = Some mesh
 \<and> m_last_bind_geometry (renderer (renderModel_mesh model transform mesh w)) =
     (if m_last_bind_geometry_mesh (renderer w) = Some mesh
      then m_last_bind_geometry (renderer w) else Some (model_geometry model))
 \<and> m_last_program_id (renderer (renderModel_mesh model transform mesh w)) =
     program_id (combinations
       (shader_at w (material_shader (material_at w (mesh_material (mesh_at w mesh)))))
       (material_shader_combination (material_at w (mesh_material (mesh_at w mesh))))
       (m_current_pass_hash (renderer w)))
 \<and> renderer (renderModel_mesh model transform mesh w) =
     (renderer w)
       \<lparr>m_last_bind_geometry :=
          (if m_last_bind_geometry_mesh (renderer w) = Some mesh
           then m_last_bind_geometry (renderer w) else Some (model_geometry model)),
        m_last_bind_geometry_mesh := Some mesh,
        m_last_program_id :=
          program_id (combinations
            (shader_at w (material_shader (material_at w (mesh_material (mesh_at w mesh)))))
            (material_shader_combination (material_at w (mesh_material (mesh_at w mesh))))
            (m_current_pass_hash (renderer w)))\<rparr>
 \<and> gl (renderModel_mesh model transform mesh w) =
     (if m_last_bind_geometry_mesh (renderer w) = Some mesh
      then (gl w)\<lparr>gl_current_program :=
              program_id (combinations
                (shader_at w (material_shader (material_at w (mesh_material (mesh_at w mesh)))))
                (material_shader_combination (material_at w (mesh_material (mesh_at w mesh))))
                (m_current_pass_hash (renderer w)))\<rparr>
      else (gl w)\<lparr>gl_current_program :=
              program_id (combinations
                (shader_at w (material_shader (material_at w (mesh_material (mesh_at w mesh)))))
                (material_shader_combination (material_at w (mesh_material (mesh_at w mesh))))
                (m_current_pass_hash (renderer w))),
              gl_array_buffer := geometry_vertex_buffer (geometry_at w (model_geometry model)),
              gl_element_array_buffer :=
                geometry_index_buffer (geometry_at w (model_geometry model))\<rparr>)"
proof (intro conjI impI)
  assume "\<not> model_is_ready model"
  then show "renderModel model transform w = w" by (simp add: renderModel_def)
next
  assume ready: "model_is_ready model"
  then show eq: "renderModel model transform w =
        fold (renderModel_mesh model transform) (model_meshes model) w"
    by (simp add: renderModel_def renderModel_loop_fold)
  show "calls_since w (renderModel model transform w) =
          model_trace w model transform (m_last_bind_geometry_mesh (renderer w))
            (model_meshes model)"
    unfolding eq by (simp add: calls_since_def fold_renderModel_mesh_calls)
  obtain l where l: "calls (renderModel model transform w) = calls w @ l"
    "filter is_material_or_draw l = concat (map (mesh_events w) (model_meshes model))"
    unfolding eq using fold_renderModel_mesh_events by blast
  then show ev: "filter is_material_or_draw (calls_since w (renderModel model transform w)) =
          concat (map (mesh_events w) (model_meshes model))"
    by (simp add: calls_since_def)
  have "filter is_draw (calls_since w (renderModel model transform w)) =
        filter is_draw (filter is_material_or_draw (calls_since w (renderModel model transform w)))"
    by (simp add: is_material_or_draw_def conj_commute cong: conj_cong)
  also have "\<dots> = filter is_draw (concat (map (mesh_events w) (model_meshes model)))"
    by (simp only: ev)
  also have "length \<dots> = length (model_meshes model)"
    by (induction "model_meshes model" arbitrary: model) (simp_all add: mesh_events_def filter_concat comp_def)
  finally show "length (filter is_draw (calls_since w (renderModel model transform w))) =
          length (model_meshes model)" .
next
  show "renderModel_mesh model transform mesh w =
     renderGeometry (mesh_indices_offset (mesh_at w mesh)) (mesh_index_count (mesh_at w mesh))
       (bindGeometry (model_geometry model) mesh
          (setFixedCachedUniform (mesh_shader w mesh) WORLD_MATRIX (FMatrix transform)
             (applyMaterial (mesh_material (mesh_at w mesh)) w)))"
    by (rule renderModel_mesh_steps)
next
  show "calls_since w (renderModel_mesh model transform mesh w) =
     mesh_trace w model transform (m_last_bind_geometry_mesh (renderer w)) mesh"
    by (simp add: calls_since_def renderModel_mesh_calls)
next
  show "m_last_bind_geometry_mesh (renderer (renderModel_mesh model transform mesh w)) = Some mesh"
    by (rule renderModel_mesh_bound_mesh)
next
  show "m_last_bind_geometry (renderer (renderModel_mesh model transform mesh w)) =
     (if m_last_bind_geometry_mesh (renderer w) = Some mesh
      then m_last_bind_geometry (renderer w) else Some (model_geometry model))"
    by (rule renderModel_mesh_state(1))
next
  show "m_last_program_id (renderer (renderModel_mesh model transform mesh w)) =
     program_id (combinations
       (shader_at w (material_shader (material_at w (mesh_material (mesh_at w mesh)))))
       (material_shader_combination (material_at w (mesh_material (mesh_at w mesh))))
       (m_current_pass_hash (renderer w)))"
    by (rule renderModel_mesh_state(2))
next
  show "renderer (renderModel_mesh model transform mesh w) =
     (renderer w)
       \<lparr>m_last_bind_geometry :=
          (if m_last_bind_geometry_mesh (renderer w) = Some mesh
           then m_last_bind_geometry (renderer w) else Some (model_geometry model)),
        m_last_bind_geometry_mesh := Some mesh,
        m_last_program_id :=
          program_id (combinations
            (shader_at w (material_shader (material_at w (mesh_material (mesh_at w mesh)))))
            (material_shader_combination (material_at w (mesh_material (mesh_at w mesh))))
            (m_current_pass_hash (renderer w)))\<rparr>"
    by (rule renderModel_mesh_renderer_gl(1))
next
  show "gl (renderModel_mesh model transform mesh w) =
     (if m_last_bind_geometry_mesh (renderer w) = Some mesh
      then (gl w)\<lparr>gl_current_program :=
              program_id (combinations
                (shader_at w (material_shader (material_at w (mesh_material (mesh_at w mesh)))))
                (material_shader_combination (material_at w (mesh_material (mesh_at w mesh))))
                (m_current_pass_hash (renderer w)))\<rparr>
      else (gl w)\<lparr>gl_current_program :=
              program_id (combinations
                (shader_at w (material_shader (material_at w (mesh_material (mesh_at w mesh)))))
                (material_shader_combination (material_at w (mesh_material (mesh_at w mesh))))
                (m_current_pass_hash (renderer w))),
              gl_array_buffer := geometry_vertex_buffer (geometry_at w (model_geometry model)),
              gl_element_array_buffer :=
                geometry_index_buffer (geometry_at w (model_geometry model))\<rparr>)"
    by (rule renderModel_mesh_renderer_gl(2))
qed

theorem renderModel_guard_and_order_witness:
  "\<not> model_is_ready (example_model False)
 \<and> renderModel (example_model False) example_matrix example_world = example_world
 \<and> model_is_ready (example_model True)
 \<and> filter is_material_or_draw
      (calls_since example_world
         (renderModel (example_model True) example_matrix example_world)) =
      [Material_apply 2, GlDrawElements 6 12, Material_apply 3, GlDrawElements 6 18]
 \<and> calls_since example_world
      (renderModel (example_model True) (example_matrix\<lparr>m41 := 5\<rparr>) example_world) =
      [Material_apply 2, Shader_setCurrentCombination 2 0 4, GlUseProgram 7,
       GlUniformMatrix4fv 1 1 False [example_matrix],
       GlUniformMatrix4fv 0 1 False [example_matrix\<lparr>m41 := 5\<rparr>],
       Geometry_bindBuffers 4, GlBindBuffer GL_ARRAY_BUFFER 1,
       GlBindBuffer GL_ELEMENT_ARRAY_BUFFER 2, VertexDef_begin 2 2 64,
       GlDrawElements 6 12,
       Material_apply 3, Shader_setCurrentCombination 3 0 4, GlUseProgram 8,
       GlUniformMatrix4fv 1 1 False [example_matrix],
       GlUniformMatrix4fv 0 1 False [example_matrix\<lparr>m41 := 5\<rparr>],
       VertexDef_end 2 2,
       Geometry_bindBuffers 4, GlBindBuffer GL_ARRAY_BUFFER 1,
       GlBindBuffer GL_ELEMENT_ARRAY_BUFFER 2, VertexDef_begin 3 3 96,
       GlDrawElements 6 18]"
proof -
  let ?t = "example_matrix\<lparr>m41 := 5\<rparr>"
  have a: "\<not> model_is_ready (example_model False)" "model_is_ready (example_model True)"
    by (simp_all add: example_model_def)
  have ev: "concat (map (mesh_events example_world) (model_meshes (example_model True))) =
      [Material_apply 2, GlDrawElements 6 12, Material_apply 3, GlDrawElements 6 18]"
    by (simp add: example_model_def mesh_events_def example_world_def)
  have tr: "model_trace example_world (example_model True) ?t
              (m_last_bind_geometry_mesh (renderer example_world))
              (model_meshes (example_model True)) =
      [Material_apply 2, Shader_setCurrentCombination 2 0 4, GlUseProgram 7,
       GlUniformMatrix4fv 1 1 False [example_matrix],
       GlUniformMatrix4fv 0 1 False [?t],
       Geometry_bindBuffers 4, GlBindBuffer GL_ARRAY_BUFFER 1,
       GlBindBuffer GL_ELEMENT_ARRAY_BUFFER 2, VertexDef_begin 2 2 64,
       GlDrawElements 6 12,
       Material_apply 3, Shader_setCurrentCombination 3 0 4, GlUseProgram 8,
       GlUniformMatrix4fv 1 1 False [example_matrix],
       GlUniformMatrix4fv 0 1 False [?t],
       VertexDef_end 2 2,
       Geometry_bindBuffers 4, GlBindBuffer GL_ARRAY_BUFFER 1,
       GlBindBuffer GL_ELEMENT_ARRAY_BUFFER 2, VertexDef_begin 3 3 96,
       GlDrawElements 6 18]"
    by (simp add: example_model_def mesh_trace_def Let_def mesh_shader_def example_defs)
  from renderModel_guard_and_order
         [of "example_model False" example_matrix example_world 2] a(1)
  have n: "renderModel (example_model False) example_matrix example_world = example_world"
    by blast
  from renderModel_guard_and_order
         [of "example_model True" example_matrix example_world 2] a(2)
  have f: "filter is_material_or_draw
      (calls_since example_world
         (renderModel (example_model True) example_matrix example_world)) =
      concat (map (mesh_events example_world) (model_meshes (example_model True)))"
    by blast
  from renderModel_guard_and_order [of "example_model True" ?t example_world 2] a(2)
  have "calls_since example_world (renderModel (example_model True) ?t example_world) =
      model_trace example_world (example_model True) ?t
        (m_last_bind_geometry_mesh (renderer example_world)) (model_meshes (example_model True))"
    by blast
  with a n f ev tr show ?thesis by simp
qed

end
